theory Spec2Isabelle
  imports Complex_Main
begin

section \<open>Numbers\<close>

text \<open>
  The shader's \<open>float\<close> and the script's \<open>number\<close> are embedded as exact reals:
  every theorem below is about the formulas of the program under exact arithmetic.
  Rounding, overflow and the speed of the hardware are outside this embedding.
  Where the program can produce a value that is not a number (parsing, logarithm of a
  negative zoom) the model says so with a separate constructor.
\<close>

section \<open>The fragment shader: escape-time evaluator\<close>

type_synonym vec2 = "real \<times> real"

definition vadd :: "vec2 \<Rightarrow> vec2 \<Rightarrow> vec2" where
  "vadd a b = (fst a + fst b, snd a + snd b)"

definition dot :: "vec2 \<Rightarrow> vec2 \<Rightarrow> real" where
  "dot a b = fst a * fst b + snd a * snd b"

text \<open>\<open>complexSquare\<close>: \<open>vec2(x * x - y * y, 2.0 * x * y)\<close>.\<close>

definition complexSquare :: "vec2 \<Rightarrow> vec2" where
  "complexSquare z = (let x = fst z; y = snd z in (x * x - y * y, 2 * x * y))"

text \<open>
  The smooth value computed in the escape branch of \<open>mandelbrot\<close> and \<open>mandelbrotDP\<close>
  (the same three lines in both): \<open>logZn = log(m) / 2\<close>, \<open>nu = log(logZn / log(2)) / log(2)\<close>,
  \<open>smoothValue = float(i) + 1 - nu\<close>.
\<close>

definition smoothValue :: "int \<Rightarrow> real \<Rightarrow> real" where
  "smoothValue i zMagnitudeSquared =
     (let logZn = ln zMagnitudeSquared / 2;
          nu = ln (logZn / ln 2) / ln 2
      in real_of_int i + 1 - nu)"

text \<open>
  The loop \<open>for (int i = 0; i < 2000; i++)\<close> of \<open>mandelbrot\<close>, from loop index \<open>i\<close> with
  current iterate \<open>z\<close>. The uniform \<open>u_maxIterations\<close> is the first argument.
\<close>

function mandelbrot_loop :: "int \<Rightarrow> vec2 \<Rightarrow> vec2 \<Rightarrow> int \<Rightarrow> real" where
  "mandelbrot_loop u_maxIterations c z i =
     (if i < 2000 then
        (if i \<ge> u_maxIterations then - 1
         else
           (let z' = vadd (complexSquare z) c;
                zMagnitudeSquared = dot z' z'
            in if zMagnitudeSquared > 256 then smoothValue i zMagnitudeSquared
               else mandelbrot_loop u_maxIterations c z' (i + 1)))
      else - 1)"
  by pat_completeness auto
termination
  by (relation "measure (\<lambda>(m, c, z, i). nat (2000 - i))") auto

declare mandelbrot_loop.simps [simp del]

definition mandelbrot :: "int \<Rightarrow> vec2 \<Rightarrow> vec2 \<Rightarrow> real" where
  "mandelbrot u_maxIterations c z0 = mandelbrot_loop u_maxIterations c z0 0"

subsection \<open>Double-float emulation\<close>

text \<open>
  A double-float is a \<open>vec2(high, low)\<close>. The shader overloads \<open>ds_add\<close> and \<open>ds_mul\<close> on
  the type of the second operand; the versions taking a plain \<open>float\<close> carry the suffix
  \<open>_f\<close> here.
\<close>

definition ds_add :: "vec2 \<Rightarrow> vec2 \<Rightarrow> vec2" where
  "ds_add a b =
     (let s = fst a + fst b;
          v = s - fst a;
          e = (fst a - (s - v)) + (fst b - v) + snd a + snd b
      in (s, e))"

definition ds_add_f :: "vec2 \<Rightarrow> real \<Rightarrow> vec2" where
  "ds_add_f a b =
     (let s = fst a + b;
          v = s - fst a;
          e = (fst a - (s - v)) + (b - v) + snd a
      in (s, e))"

definition ds_mul :: "vec2 \<Rightarrow> vec2 \<Rightarrow> vec2" where
  "ds_mul a b =
     (let c = 134217729;
          ahi = c * fst a - (c * fst a - fst a);
          alo = fst a - ahi;
          bhi = c * fst b - (c * fst b - fst b);
          blo = fst b - bhi;
          p = fst a * fst b;
          e = ((ahi * bhi - p) + ahi * blo + alo * bhi + alo * blo)
                + fst a * snd b + snd a * fst b
      in (p, e))"

definition ds_mul_f :: "vec2 \<Rightarrow> real \<Rightarrow> vec2" where
  "ds_mul_f a b =
     (let c = 134217729;
          ahi = c * fst a - (c * fst a - fst a);
          alo = fst a - ahi;
          bhi = c * b - (c * b - b);
          blo = b - bhi;
          p = fst a * b;
          e = ((ahi * bhi - p) + ahi * blo + alo * bhi + alo * blo) + snd a * b
      in (p, e))"

definition ds_set :: "real \<Rightarrow> vec2" where
  "ds_set a = (a, 0)"

text \<open>\<open>complexSquareDP\<close> returns its two \<open>out\<close> parameters as a pair \<open>(outX, outY)\<close>.\<close>

definition complexSquareDP :: "vec2 \<Rightarrow> vec2 \<Rightarrow> vec2 \<times> vec2" where
  "complexSquareDP zx zy =
     (let xx = ds_mul zx zx;
          yy = ds_mul zy zy;
          xy = ds_mul zx zy
      in (ds_add xx (ds_mul_f yy (- 1)), ds_mul_f xy 2))"

function mandelbrotDP_loop :: "int \<Rightarrow> vec2 \<Rightarrow> vec2 \<Rightarrow> vec2 \<Rightarrow> vec2 \<Rightarrow> int \<Rightarrow> real" where
  "mandelbrotDP_loop u_maxIterations cx cy zx zy i =
     (if i < 2000 then
        (if i \<ge> u_maxIterations then - 1
         else
           (let newZ = complexSquareDP zx zy;
                zx' = ds_add (fst newZ) cx;
                zy' = ds_add (snd newZ) cy;
                zMagnitudeSquared = fst zx' * fst zx' + fst zy' * fst zy'
            in if zMagnitudeSquared > 256 then smoothValue i zMagnitudeSquared
               else mandelbrotDP_loop u_maxIterations cx cy zx' zy' (i + 1)))
      else - 1)"
  by pat_completeness auto
termination
  by (relation "measure (\<lambda>(m, cx, cy, zx, zy, i). nat (2000 - i))") auto

declare mandelbrotDP_loop.simps [simp del]

definition mandelbrotDP :: "int \<Rightarrow> vec2 \<Rightarrow> vec2 \<Rightarrow> vec2 \<Rightarrow> vec2 \<Rightarrow> real" where
  "mandelbrotDP u_maxIterations cx cy z0x z0y =
     mandelbrotDP_loop u_maxIterations cx cy z0x z0y 0"

subsection \<open>The shader's entry point\<close>

text \<open>
  The uniforms of the shader. \<open>u_centerDP\<close> is the \<open>vec4 (hi_x, lo_x, hi_y, lo_y)\<close>, kept as
  its two halves \<open>.xy\<close> and \<open>.zw\<close>.
\<close>

record uniforms =
  u_center :: vec2
  u_centerDP :: "vec2 \<times> vec2"
  u_zoom :: real
  u_useDP :: bool
  u_maxIterations :: int
  u_colorPalette :: int
  u_isJulia :: bool
  u_juliaC :: vec2
  u_resolution :: vec2
  u_time :: real

text \<open>
  The first half of \<open>main\<close>: the value \<open>iter\<close> for the fragment at \<open>vUv\<close>. A quotient by a
  zero \<open>u_zoom\<close> or a zero height is not a number in the shader and \<open>0\<close> in HOL; the
  theorems about \<open>main_iter\<close> assume both positive.
\<close>

definition main_iter :: "uniforms \<Rightarrow> vec2 \<Rightarrow> real" where
  "main_iter U vUv =
     (let uv0 = (fst vUv - 0.5, snd vUv - 0.5);
          uv = (fst uv0 * (fst (u_resolution U) / snd (u_resolution U)), snd uv0)
      in if u_useDP U then
           (let offset = (fst uv / u_zoom U, snd uv / u_zoom U);
                cx0 = fst (u_centerDP U);
                cy0 = snd (u_centerDP U);
                cx = ds_add_f cx0 (fst offset);
                cy = ds_add_f cy0 (snd offset)
            in if u_isJulia U then
                 mandelbrotDP (u_maxIterations U)
                   (ds_set (fst (u_juliaC U))) (ds_set (snd (u_juliaC U))) cx cy
               else mandelbrotDP (u_maxIterations U) cx cy (ds_set 0) (ds_set 0))
         else
           (let c = vadd (u_center U) (fst uv / u_zoom U, snd uv / u_zoom U)
            in if u_isJulia U then mandelbrot (u_maxIterations U) (u_juliaC U) c
               else mandelbrot (u_maxIterations U) c (0, 0)))"

text \<open>
  The second half of \<open>main\<close> branches on \<open>iter < 0.0\<close>: when it holds the fragment gets the
  fixed in-set colour \<open>vec3(0.0, 0.0, 0.05)\<close>, otherwise the palette colour.
\<close>

definition main_in_set :: "uniforms \<Rightarrow> vec2 \<Rightarrow> bool" where
  "main_in_set U vUv = (main_iter U vUv < 0)"

subsection \<open>The orbit, as the specification words it\<close>

text \<open>
  The specification speaks of the iterates of \<open>z \<leftarrow> z\<^sup>2 + c\<close> and of the first iteration at
  which \<open>|z|\<^sup>2 > 256\<close>. \<open>orbit c z0 k\<close> is the \<open>k\<close>-th iterate; \<open>escapes_at c z0 i\<close> says that
  the test of loop index \<open>i\<close>, made on iterate \<open>i + 1\<close>, succeeds.
\<close>

fun orbit :: "vec2 \<Rightarrow> vec2 \<Rightarrow> nat \<Rightarrow> vec2" where
  "orbit c z0 0 = z0"
| "orbit c z0 (Suc k) = vadd (complexSquare (orbit c z0 k)) c"

definition escapes_at :: "vec2 \<Rightarrow> vec2 \<Rightarrow> nat \<Rightarrow> bool" where
  "escapes_at c z0 i = (dot (orbit c z0 (Suc i)) (orbit c z0 (Suc i)) > 256)"

section \<open>Numbers of the script\<close>

text \<open>
  A \<open>number\<close> of the script is a finite value, \<open>NaN\<close> or one of the two infinities. The
  functions below are the ones the program applies to values that may not be finite; on
  finite values they are the exact operations.
\<close>

datatype jsnum = Num real | NaN | Infinity | NegInfinity

fun Math_log10 :: "jsnum \<Rightarrow> jsnum" where
  "Math_log10 (Num x) =
     (if x < 0 then NaN else if x = 0 then NegInfinity else Num (log 10 x))"
| "Math_log10 Infinity = Infinity"
| "Math_log10 _ = NaN"

text \<open>The operators \<open>*\<close> and \<open>+\<close>.\<close>

fun js_times :: "jsnum \<Rightarrow> jsnum \<Rightarrow> jsnum" where
  "js_times (Num a) (Num b) = Num (a * b)"
| "js_times NaN _ = NaN"
| "js_times _ NaN = NaN"
| "js_times Infinity (Num b) = (if b > 0 then Infinity else if b < 0 then NegInfinity else NaN)"
| "js_times NegInfinity (Num b) = (if b > 0 then NegInfinity else if b < 0 then Infinity else NaN)"
| "js_times (Num a) Infinity = (if a > 0 then Infinity else if a < 0 then NegInfinity else NaN)"
| "js_times (Num a) NegInfinity = (if a > 0 then NegInfinity else if a < 0 then Infinity else NaN)"
| "js_times Infinity Infinity = Infinity"
| "js_times NegInfinity NegInfinity = Infinity"
| "js_times Infinity NegInfinity = NegInfinity"
| "js_times NegInfinity Infinity = NegInfinity"

fun js_plus :: "jsnum \<Rightarrow> jsnum \<Rightarrow> jsnum" where
  "js_plus (Num a) (Num b) = Num (a + b)"
| "js_plus NaN _ = NaN"
| "js_plus _ NaN = NaN"
| "js_plus Infinity NegInfinity = NaN"
| "js_plus NegInfinity Infinity = NaN"
| "js_plus Infinity _ = Infinity"
| "js_plus _ Infinity = Infinity"
| "js_plus NegInfinity _ = NegInfinity"
| "js_plus _ NegInfinity = NegInfinity"

fun Math_floor :: "jsnum \<Rightarrow> jsnum" where
  "Math_floor (Num x) = Num (of_int \<lfloor>x\<rfloor>)"
| "Math_floor v = v"

fun Math_max :: "jsnum \<Rightarrow> jsnum \<Rightarrow> jsnum" where
  "Math_max (Num a) (Num b) = Num (max a b)"
| "Math_max NaN _ = NaN"
| "Math_max _ NaN = NaN"
| "Math_max Infinity _ = Infinity"
| "Math_max _ Infinity = Infinity"
| "Math_max NegInfinity v = v"
| "Math_max v NegInfinity = v"

fun Math_min :: "jsnum \<Rightarrow> jsnum \<Rightarrow> jsnum" where
  "Math_min (Num a) (Num b) = Num (min a b)"
| "Math_min NaN _ = NaN"
| "Math_min _ NaN = NaN"
| "Math_min NegInfinity _ = NegInfinity"
| "Math_min _ NegInfinity = NegInfinity"
| "Math_min Infinity v = v"
| "Math_min v Infinity = v"

definition Math_hypot :: "real \<Rightarrow> real \<Rightarrow> real" where
  "Math_hypot a b = sqrt (a * a + b * b)"

section \<open>The renderer component\<close>

subsection \<open>State\<close>

text \<open>
  The view and the interaction state kept in the component's refs. Their arithmetic is
  over finite numbers; a quotient by zero is not a finite number in the script and \<open>0\<close> in
  HOL, so the theorems about the handlers assume a layout rectangle with positive sides
  and a positive zoom.
\<close>

record ViewState =
  center :: vec2
  zoom :: real
  targetCenter :: vec2
  targetZoom :: real

record InteractionState =
  isDragging :: bool
  lastMousePos :: "vec2 option"
  velocity :: vec2
  isPinching :: bool
  lastPinchDistance :: "real option"

text \<open>
  \<open>FractalState\<close>, owned by \<open>App\<close>. The fields that the URL can set are \<open>jsnum\<close>s, since
  parsing can give \<open>NaN\<close>; \<open>animationSpeed\<close> only comes from the default and the slider.
\<close>

record FractalState =
  center :: "jsnum \<times> jsnum"
  zoom :: jsnum
  maxIterations :: jsnum
  colorPalette :: jsnum
  isJulia :: bool
  juliaC :: "jsnum \<times> jsnum"
  autoZoom :: bool
  animationSpeed :: real

definition DEFAULT_STATE :: FractalState where
  "DEFAULT_STATE =
     \<lparr>center = (Num (- 0.5), Num 0), zoom = Num 1, maxIterations = Num 150,
      colorPalette = Num 0, isJulia = False, juliaC = (Num (- 0.7), Num 0.27015),
      autoZoom = False, animationSpeed = 3\<rparr>"

text \<open>
  A \<open>Partial<FractalState>\<close> is the list of its keys with their values, in the order of
  the object literal. \<open>merge prev updates\<close> is \<open>{ ...prev, ...updates }\<close>, what both
  \<open>setState\<close> callbacks of \<open>App\<close> compute.
\<close>

datatype field =
    Set_center "jsnum \<times> jsnum"
  | Set_zoom jsnum
  | Set_maxIterations jsnum
  | Set_colorPalette jsnum
  | Set_isJulia bool
  | Set_juliaC "jsnum \<times> jsnum"
  | Set_autoZoom bool
  | Set_animationSpeed real

fun assign :: "FractalState \<Rightarrow> field \<Rightarrow> FractalState" where
  "assign s (Set_center v) = s\<lparr>center := v\<rparr>"
| "assign s (Set_zoom v) = s\<lparr>zoom := v\<rparr>"
| "assign s (Set_maxIterations v) = s\<lparr>maxIterations := v\<rparr>"
| "assign s (Set_colorPalette v) = s\<lparr>colorPalette := v\<rparr>"
| "assign s (Set_isJulia v) = s\<lparr>isJulia := v\<rparr>"
| "assign s (Set_juliaC v) = s\<lparr>juliaC := v\<rparr>"
| "assign s (Set_autoZoom v) = s\<lparr>autoZoom := v\<rparr>"
| "assign s (Set_animationSpeed v) = s\<lparr>animationSpeed := v\<rparr>"

definition merge :: "FractalState \<Rightarrow> field list \<Rightarrow> FractalState" where
  "merge prev updates = foldl assign prev updates"

text \<open>
  The effect that runs when \<open>state\<close> changes copies \<open>state.center\<close> and \<open>state.zoom\<close> into the
  view's targets. The result is \<open>None\<close> when one of them is not finite: the view of this
  embedding cannot hold it.
\<close>

definition stateEffect :: "FractalState \<Rightarrow> ViewState \<Rightarrow> ViewState option" where
  "stateEffect state view =
     (case (center state, zoom state) of
        ((Num x, Num y), Num z) \<Rightarrow> Some (view\<lparr>targetCenter := (x, y), targetZoom := z\<rparr>)
      | _ \<Rightarrow> None)"

text \<open>
  The point of the complex plane shown at the aspect-corrected offset \<open>p\<close> from the middle
  of the screen: \<open>u_center + uv / u_zoom\<close> in \<open>main\<close>, \<open>worldX\<close> and \<open>worldY\<close> in \<open>handleWheel\<close>.
\<close>

definition screenToWorld :: "vec2 \<Rightarrow> real \<Rightarrow> vec2 \<Rightarrow> vec2" where
  "screenToWorld c z p = vadd c (fst p / z, snd p / z)"

subsection \<open>The animation frame\<close>

text \<open>
  The state part of one call of \<open>animate\<close>: easing of the view, then the inertial pan.
  \<open>deltaTime\<close> is \<open>time - lastTime\<close>; \<open>width\<close> and \<open>height\<close> are the window's at set-up.
\<close>

definition animate ::
  "real \<Rightarrow> real \<Rightarrow> real \<Rightarrow> ViewState \<times> InteractionState \<Rightarrow> ViewState \<times> InteractionState"
where
  "animate deltaTime width height s =
     (let view0 = fst s;
          interaction = snd s;
          lerpFactor = min (deltaTime * 0.005) 1;
          view = view0
            \<lparr>ViewState.center :=
               (fst (ViewState.center view0)
                  + (fst (targetCenter view0) - fst (ViewState.center view0)) * lerpFactor,
                snd (ViewState.center view0)
                  + (snd (targetCenter view0) - snd (ViewState.center view0)) * lerpFactor),
             ViewState.zoom :=
               ViewState.zoom view0 + (targetZoom view0 - ViewState.zoom view0) * lerpFactor\<rparr>
      in if \<not> isDragging interaction
            \<and> (\<bar>fst (velocity interaction)\<bar> > 0.01 \<or> \<bar>snd (velocity interaction)\<bar> > 0.01)
         then
           (let aspect = width / height
            in (view\<lparr>targetCenter :=
                  (fst (targetCenter view)
                     + fst (velocity interaction) / ViewState.zoom view * aspect * 0.002,
                   snd (targetCenter view)
                     - snd (velocity interaction) / ViewState.zoom view * 0.002)\<rparr>,
                interaction\<lparr>velocity :=
                  (fst (velocity interaction) * 0.85, snd (velocity interaction) * 0.85)\<rparr>))
         else if \<not> isDragging interaction then (view, interaction\<lparr>velocity := (0, 0)\<rparr>)
         else (view, interaction))"

text \<open>The uniforms \<open>animate\<close> writes before rendering.\<close>

definition animate_uniforms :: "ViewState \<Rightarrow> uniforms \<Rightarrow> uniforms" where
  "animate_uniforms view U =
     (let U1 = U\<lparr>u_center := ViewState.center view, u_zoom := ViewState.zoom view\<rparr>;
          useDP = (ViewState.zoom view > 1000000);
          U2 = U1\<lparr>u_useDP := useDP\<rparr>
      in if useDP then
           U2\<lparr>u_centerDP :=
                ((fst (ViewState.center view), 0), (snd (ViewState.center view), 0))\<rparr>
         else U2)"

text \<open>Successive frames, one \<open>deltaTime\<close> each.\<close>

definition animate_frames ::
  "real \<Rightarrow> real \<Rightarrow> real list \<Rightarrow> ViewState \<times> InteractionState \<Rightarrow> ViewState \<times> InteractionState"
where
  "animate_frames width height deltaTimes s =
     foldl (\<lambda>s deltaTime. animate deltaTime width height s) s deltaTimes"

text \<open>
  What one frame does to the velocity while nothing is dragged: the two branches of
  \<open>animate\<close> that write \<open>interaction.velocity\<close>.
\<close>

definition inertia_step :: "vec2 \<Rightarrow> vec2" where
  "inertia_step v =
     (if \<bar>fst v\<bar> > 0.01 \<or> \<bar>snd v\<bar> > 0.01 then (fst v * 0.85, snd v * 0.85) else (0, 0))"

subsection \<open>Gestures\<close>

record DOMRect =
  left :: real
  top :: real
  width :: real
  height :: real

record WheelEvent =
  clientX :: real
  clientY :: real
  deltaY :: real

text \<open>
  \<open>handleWheel\<close> returns the object it passes to \<open>onStateChange\<close>, or \<open>None\<close> when it returns
  early for want of a layout rectangle.
\<close>

definition handleWheel :: "DOMRect option \<Rightarrow> WheelEvent \<Rightarrow> ViewState \<Rightarrow> field list option" where
  "handleWheel rect e view =
     (case rect of
        None \<Rightarrow> None
      | Some r \<Rightarrow>
          (let mouseX = (clientX e - left r) / width r - 0.5;
               mouseY = - ((clientY e - top r) / height r - 0.5);
               aspect = width r / height r;
               zoomFactor = (if deltaY e > 0 then 0.9 else 1.1);
               newZoom = targetZoom view * zoomFactor;
               worldX = fst (targetCenter view) + (mouseX * aspect) / targetZoom view;
               worldY = snd (targetCenter view) + mouseY / targetZoom view;
               newCenter = (worldX - (mouseX * aspect) / newZoom, worldY - mouseY / newZoom);
               iterationsNeeded =
                 Math_min (Num 2000)
                   (Math_max (Num 100)
                      (Math_floor (js_plus (Num 100) (js_times (Math_log10 (Num newZoom)) (Num 50)))))
           in Some [Set_center (Num (fst newCenter), Num (snd newCenter)),
                    Set_zoom (Num newZoom),
                    Set_maxIterations iterationsNeeded]))"

text \<open>The pointer of a wheel event as \<open>handleWheel\<close> reads it: \<open>(mouseX * aspect, mouseY)\<close>.\<close>

definition pointer :: "DOMRect \<Rightarrow> vec2 \<Rightarrow> vec2" where
  "pointer r client =
     (let mouseX = (fst client - left r) / width r - 0.5;
          mouseY = - ((snd client - top r) / height r - 0.5);
          aspect = width r / height r
      in (mouseX * aspect, mouseY))"

text \<open>
  The callback of the auto-zoom interval, which exists only while \<open>state.autoZoom\<close> holds:
  the object passed to \<open>onStateChange\<close>.
\<close>

definition autoZoomTick :: "FractalState \<Rightarrow> ViewState \<Rightarrow> field list option" where
  "autoZoomTick state view =
     (if \<not> autoZoom state then None
      else
        (let newZoom = targetZoom view * (1 + animationSpeed state * 0.01);
             iterationsNeeded =
               Math_min (Num 2000)
                 (Math_max (Num 100)
                    (Math_floor (js_plus (Num 100) (js_times (Math_log10 (Num newZoom)) (Num 50)))))
         in Some [Set_zoom (Num newZoom), Set_maxIterations iterationsNeeded]))"

text \<open>
  \<open>handleTouchMove\<close>: the touches are their \<open>(clientX, clientY)\<close>. The result is the
  interaction state, the view, and the object passed to \<open>onStateChange\<close> if there is one.
  A \<open>lastPinchDistance\<close> is truthy when it is neither \<open>null\<close> nor \<open>0\<close>.
\<close>

definition handleTouchMove ::
  "DOMRect option \<Rightarrow> vec2 list \<Rightarrow> InteractionState \<Rightarrow> ViewState
     \<Rightarrow> InteractionState \<times> ViewState \<times> field list option"
where
  "handleTouchMove rect touches interaction view =
     (if length touches = 1 \<and> isDragging interaction \<and> lastMousePos interaction \<noteq> None then
        (let touch = touches ! 0;
             deltaX = fst touch - fst (the (lastMousePos interaction));
             deltaY = snd touch - snd (the (lastMousePos interaction))
         in case rect of
              None \<Rightarrow> (interaction, view, None)
            | Some r \<Rightarrow>
                (let aspect = width r / height r;
                     view' = view\<lparr>targetCenter :=
                       (fst (targetCenter view) - (deltaX / width r) * aspect / targetZoom view,
                        snd (targetCenter view) + (deltaY / height r) / targetZoom view)\<rparr>
                 in (interaction\<lparr>lastMousePos := Some touch\<rparr>, view', None)))
      else if length touches = 2 \<and> isPinching interaction
              \<and> lastPinchDistance interaction \<noteq> None \<and> lastPinchDistance interaction \<noteq> Some 0
      then
        (let touch1 = touches ! 0;
             touch2 = touches ! 1;
             distance = Math_hypot (fst touch2 - fst touch1) (snd touch2 - snd touch1);
             scale = distance / the (lastPinchDistance interaction);
             newZoom = targetZoom view * scale
         in (interaction\<lparr>lastPinchDistance := Some distance\<rparr>, view,
             Some [Set_zoom (Num newZoom)]))
      else (interaction, view, None))"

subsection \<open>The iteration budget, as the specification words it\<close>

text \<open>\<open>iterations(zoom) = min(2000, max(100, floor(100 + log10(zoom) \<cdot> 50)))\<close>.\<close>

definition iterations :: "real \<Rightarrow> int" where
  "iterations z = min 2000 (max 100 \<lfloor>100 + log 10 z * 50\<rfloor>)"

section \<open>Shareable state in the URL\<close>

subsection \<open>Decimal strings\<close>

text \<open>
  Strings are byte lists. The decimal digits of a natural number, most significant
  first, and the value of a digit string.
\<close>

definition is_digit :: "char \<Rightarrow> bool" where
  "is_digit c = (48 \<le> (of_char c :: nat) \<and> (of_char c :: nat) \<le> 57)"

definition digit_val :: "char \<Rightarrow> nat" where
  "digit_val c = of_char c - 48"

definition digit_char :: "nat \<Rightarrow> char" where
  "digit_char d = ''0123456789'' ! d"

fun digits :: "nat \<Rightarrow> string" where
  "digits n = (if n < 10 then [digit_char n] else digits (n div 10) @ [digit_char (n mod 10)])"

declare digits.simps [simp del]

definition digits_value :: "string \<Rightarrow> nat" where
  "digits_value s = foldl (\<lambda>a c. 10 * a + digit_val c) 0 s"

text \<open>The white space that the parsers skip, as far as it is a single byte.\<close>

definition is_space :: "char \<Rightarrow> bool" where
  "is_space c = ((of_char c :: nat) \<in> {9, 10, 11, 12, 13, 32})"

subsection \<open>Library functions on numbers\<close>

text \<open>
  \<open>Number.prototype.toString\<close> and \<open>toFixed\<close> write exact decimal digits for the integers
  below \<open>2\<^sup>5\<^sup>3\<close> and for magnitudes below \<open>10\<^sup>2\<^sup>1\<close>. For the other finite values the
  language prints the shortest digits that identify the binary value; that rendering is
  the parameter \<open>big\<close>.
\<close>

definition Number_toString :: "(real \<Rightarrow> string) \<Rightarrow> jsnum \<Rightarrow> string" where
  "Number_toString big v =
     (case v of
        NaN \<Rightarrow> ''NaN''
      | Infinity \<Rightarrow> ''Infinity''
      | NegInfinity \<Rightarrow> ''-Infinity''
      | Num x \<Rightarrow>
          (if x = of_int \<lfloor>x\<rfloor> \<and> \<bar>x\<bar> < 2 ^ 53
           then (if x < 0 then ''-'' else []) @ digits (nat \<bar>\<lfloor>x\<rfloor>\<bar>)
           else big x))"

text \<open>
  \<open>toFixed(f)\<close>: the sign, then the integer \<open>n\<close> nearest to \<open>x \<cdot> 10\<^sup>f\<close> (the larger of two),
  padded with zeros to more than \<open>f\<close> digits, with a point before the last \<open>f\<close>.
\<close>

definition toFixed :: "(real \<Rightarrow> string) \<Rightarrow> nat \<Rightarrow> jsnum \<Rightarrow> string" where
  "toFixed big f v =
     (case v of
        NaN \<Rightarrow> ''NaN''
      | Infinity \<Rightarrow> ''Infinity''
      | NegInfinity \<Rightarrow> ''-Infinity''
      | Num x0 \<Rightarrow>
          (let s = (if x0 < 0 then ''-'' else []);
               x = (if x0 < 0 then - x0 else x0)
           in if x \<ge> 10 ^ 21 then s @ big x
              else
                (let n = nat \<lfloor>x * 10 ^ f + 1 / 2\<rfloor>;
                     m0 = digits n;
                     m = (if f \<noteq> 0 then
                            (let k0 = length m0;
                                 m1 = (if k0 \<le> f then replicate (f + 1 - k0) CHR ''0'' @ m0
                                       else m0);
                                 k = length m1
                             in take (k - f) m1 @ ''.'' @ drop (k - f) m1)
                          else m0)
                 in s @ m)))"

text \<open>
  Two readings of \<open>toFixed\<close> used to state what it writes: the zero-padded digits of \<open>n\<close>,
  and the number that the written string denotes.
\<close>

definition padded :: "nat \<Rightarrow> nat \<Rightarrow> string" where
  "padded f n =
     (if length (digits n) \<le> f then replicate (f + 1 - length (digits n)) CHR ''0'' @ digits n
      else digits n)"

definition toFixed_value :: "nat \<Rightarrow> real \<Rightarrow> real" where
  "toFixed_value f x =
     (if x < 0 then - real (nat \<lfloor>- x * 10 ^ f + 1 / 2\<rfloor>) / 10 ^ f
      else real (nat \<lfloor>x * 10 ^ f + 1 / 2\<rfloor>) / 10 ^ f)"

text \<open>
  The exponent part of a decimal literal: \<open>e\<close> or \<open>E\<close>, an optional sign and digits; \<open>0\<close>
  when there is none.
\<close>

definition exponent :: "string \<Rightarrow> int" where
  "exponent s =
     (case s of
        [] \<Rightarrow> 0
      | c # r \<Rightarrow>
          (if c = CHR ''e'' \<or> c = CHR ''E'' then
             (let neg = (case r of [] \<Rightarrow> False | d # _ \<Rightarrow> d = CHR ''-'');
                  r' = (case r of [] \<Rightarrow> []
                        | d # t \<Rightarrow> if d = CHR ''-'' \<or> d = CHR ''+'' then t else r);
                  ds = takeWhile is_digit r'
              in if ds = [] then 0
                 else if neg then - int (digits_value ds) else int (digits_value ds))
           else 0))"

text \<open>
  \<open>parseFloat\<close>: white space is skipped, then the longest prefix that is a decimal
  literal is read: a sign, \<open>Infinity\<close> or digits with an optional point and exponent.
  Without such a prefix the result is \<open>NaN\<close>. The value is exact here; the script rounds
  it and overflows to an infinity.
\<close>

definition parseFloat :: "string \<Rightarrow> jsnum" where
  "parseFloat inputString =
     (let trimmed = dropWhile is_space inputString;
          neg = (case trimmed of [] \<Rightarrow> False | c # _ \<Rightarrow> c = CHR ''-'');
          body = (case trimmed of [] \<Rightarrow> []
                  | c # r \<Rightarrow> if c = CHR ''-'' \<or> c = CHR ''+'' then r else trimmed)
      in if take 8 body = ''Infinity'' then (if neg then NegInfinity else Infinity)
         else
           (let ip = takeWhile is_digit body;
                r1 = dropWhile is_digit body;
                hasPoint = (case r1 of [] \<Rightarrow> False | c # _ \<Rightarrow> c = CHR ''.'');
                fp = (if hasPoint then takeWhile is_digit (tl r1) else []);
                r2 = (if hasPoint then dropWhile is_digit (tl r1) else r1)
            in if ip = [] \<and> fp = [] then NaN
               else
                 (let m = real (digits_value (ip @ fp)) / 10 ^ length fp;
                      e = exponent r2;
                      scaled = (if e \<ge> 0 then m * 10 ^ nat e else m / 10 ^ nat (- e))
                  in Num (if neg then - scaled else scaled))))"

text \<open>\<open>parseInt(s, 10)\<close>: white space, a sign, then the longest prefix of digits.\<close>

definition parseInt :: "string \<Rightarrow> jsnum" where
  "parseInt inputString =
     (let trimmed = dropWhile is_space inputString;
          neg = (case trimmed of [] \<Rightarrow> False | c # _ \<Rightarrow> c = CHR ''-'');
          body = (case trimmed of [] \<Rightarrow> []
                  | c # r \<Rightarrow> if c = CHR ''-'' \<or> c = CHR ''+'' then r else trimmed);
          ds = takeWhile is_digit body
      in if ds = [] then NaN
         else Num (if neg then - real (digits_value ds) else real (digits_value ds)))"

subsection \<open>The key-value form\<close>

text \<open>
  A \<open>URLSearchParams\<close> is the list of its pairs. \<open>get\<close> returns the first value of a key or
  \<open>null\<close>; \<open>set\<close> replaces the first pair of the key and removes its other pairs, or
  appends.
\<close>

type_synonym URLSearchParams = "(string \<times> string) list"

definition params_get :: "URLSearchParams \<Rightarrow> string \<Rightarrow> string option" where
  "params_get params k = map_of params k"

fun params_set :: "URLSearchParams \<Rightarrow> string \<Rightarrow> string \<Rightarrow> URLSearchParams" where
  "params_set [] k v = [(k, v)]"
| "params_set (p # ps) k v =
     (if fst p = k then (k, v) # filter (\<lambda>q. fst q \<noteq> k) ps else p # params_set ps k v)"

subsection \<open>The hook \<open>useUrlState\<close>\<close>

text \<open>The first effect builds \<open>updates\<close> from the parameters of the location.\<close>

definition loadUpdates :: "URLSearchParams \<Rightarrow> field list" where
  "loadUpdates params =
     (let cx = params_get params ''cx'';
          cy = params_get params ''cy'';
          zoom = params_get params ''z'';
          iter = params_get params ''i'';
          palette = params_get params ''p'';
          julia = params_get params ''j'';
          jx = params_get params ''jx'';
          jy = params_get params ''jy''
      in (if cx \<noteq> None \<and> cy \<noteq> None
          then [Set_center (parseFloat (the cx), parseFloat (the cy))] else [])
       @ (if zoom \<noteq> None then [Set_zoom (parseFloat (the zoom))] else [])
       @ (if iter \<noteq> None then [Set_maxIterations (parseInt (the iter))] else [])
       @ (if palette \<noteq> None then [Set_colorPalette (parseInt (the palette))] else [])
       @ (if julia \<noteq> None then [Set_isJulia (the julia = ''1'')] else [])
       @ (if jx \<noteq> None \<and> jy \<noteq> None
          then [Set_juliaC (parseFloat (the jx), parseFloat (the jy))] else []))"

text \<open>
  It calls \<open>setState(updates)\<close>, which in \<open>App\<close> merges them into the previous state, when
  \<open>updates\<close> has a key.
\<close>

definition loadFromUrl :: "FractalState \<Rightarrow> URLSearchParams \<Rightarrow> FractalState" where
  "loadFromUrl prev params =
     (let updates = loadUpdates params
      in if length updates > 0 then merge prev updates else prev)"

text \<open>The second effect writes the parameters of the new location from the state.\<close>

definition encodeUrl :: "(real \<Rightarrow> string) \<Rightarrow> FractalState \<Rightarrow> URLSearchParams" where
  "encodeUrl big state =
     (let params0 = [];
          params1 = params_set params0 ''cx'' (toFixed big 10 (fst (center state)));
          params2 = params_set params1 ''cy'' (toFixed big 10 (snd (center state)));
          params3 = params_set params2 ''z'' (toFixed big 6 (zoom state));
          params4 = params_set params3 ''i'' (Number_toString big (maxIterations state));
          params5 = params_set params4 ''p'' (Number_toString big (colorPalette state))
      in if isJulia state then
           (let params6 = params_set params5 ''j'' ''1'';
                params7 = params_set params6 ''jx'' (toFixed big 10 (fst (juliaC state)));
                params8 = params_set params7 ''jy'' (toFixed big 10 (snd (juliaC state)))
            in params8)
         else params5)"

section \<open>Theorems\<close>

subsection \<open>The loop and the orbit\<close>

lemma orbit_shift: "orbit c z (Suc k) = orbit c (vadd (complexSquare z) c) k"
  by (induction k) simp_all

lemma escapes_at_shift: "escapes_at c z (Suc k) = escapes_at c (vadd (complexSquare z) c) k"
  unfolding escapes_at_def by (simp only: orbit_shift)

lemma mandelbrot_loop_escape:
  "int d + i < n \<Longrightarrow> int d + i < 2000 \<Longrightarrow> escapes_at c z d \<Longrightarrow>
   (\<forall>j<d. \<not> escapes_at c z j) \<Longrightarrow>
   mandelbrot_loop n c z i =
     smoothValue (i + int d) (dot (orbit c z (Suc d)) (orbit c z (Suc d)))"
proof (induction d arbitrary: z i)
  case 0
  then show ?case
    by (subst mandelbrot_loop.simps) (simp add: escapes_at_def Let_def)
next
  case (Suc d)
  let ?z' = "vadd (complexSquare z) c"
  have no0: "\<not> dot ?z' ?z' > 256"
    using Suc.prems(4) by (auto simp: escapes_at_def)
  have esc: "escapes_at c ?z' d"
    using Suc.prems(3) by (simp only: escapes_at_shift)
  have noesc: "\<forall>j<d. \<not> escapes_at c ?z' j"
    using Suc.prems(4) escapes_at_shift [of c z] by auto
  have "mandelbrot_loop n c ?z' (i + 1) =
      smoothValue (i + 1 + int d) (dot (orbit c ?z' (Suc d)) (orbit c ?z' (Suc d)))"
    using Suc.prems(1,2) esc noesc by (intro Suc.IH) simp_all
  moreover have "mandelbrot_loop n c z i = mandelbrot_loop n c ?z' (i + 1)"
    using Suc.prems(1,2) no0 by (subst mandelbrot_loop.simps) (simp add: Let_def)
  ultimately show ?case
    by (simp only: orbit_shift [of c z "Suc d"]) (simp add: add.commute add.left_commute)
qed

lemma mandelbrot_loop_no_escape:
  "(\<forall>j. int j + i < n \<longrightarrow> int j + i < 2000 \<longrightarrow> \<not> escapes_at c z j) \<Longrightarrow>
   mandelbrot_loop n c z i = - 1"
proof (induction n c z i rule: mandelbrot_loop.induct)
  case (1 n c z i)
  let ?z' = "vadd (complexSquare z) c"
  show ?case
  proof (cases "i < 2000 \<and> \<not> n \<le> i")
    case True
    have no0: "\<not> dot ?z' ?z' > 256"
      using "1.prems" [rule_format, of 0] True by (simp add: escapes_at_def)
    have "\<forall>j. int j + (i + 1) < n \<longrightarrow> int j + (i + 1) < 2000 \<longrightarrow> \<not> escapes_at c ?z' j"
    proof (intro allI impI)
      fix j assume "int j + (i + 1) < n" "int j + (i + 1) < 2000"
      then have "\<not> escapes_at c z (Suc j)"
        using "1.prems" [rule_format, of "Suc j"] by simp
      then show "\<not> escapes_at c ?z' j" by (simp add: escapes_at_shift)
    qed
    then have "mandelbrot_loop n c ?z' (i + 1) = - 1"
      using True no0 by (intro "1.IH" [of ?z' "dot ?z' ?z'"]) simp_all
    then show ?thesis
      using True no0 by (subst mandelbrot_loop.simps) (simp add: Let_def)
  next
    case False
    then show ?thesis by (subst mandelbrot_loop.simps) auto
  qed
qed

lemma escape_at_first_index:
  assumes "1 \<le> n" and "escapes_at c z0 0"
  shows "mandelbrot n c z0 = smoothValue 0 (dot (orbit c z0 (Suc 0)) (orbit c z0 (Suc 0)))"
  using assms mandelbrot_loop_escape [of 0 0 n c z0] by (simp add: mandelbrot_def)

text \<open>
  C2. For every sample \<open>c\<close>, initial value \<open>z0\<close> and budget \<open>n\<close> between 1 and 2000, the
  evaluator follows the orbit of \<open>z \<leftarrow> z\<^sup>2 + c\<close>: when \<open>i < n\<close> is the first loop index whose
  iterate has \<open>|z|\<^sup>2 > 256\<close>, it returns \<open>i + 1 - nu\<close> with \<open>logZn = ln(|z|\<^sup>2) / 2\<close> and
  \<open>nu = ln(logZn / ln 2) / ln 2\<close>; when no iterate within the budget passes the test, it
  returns the in-set sentinel \<open>-1\<close>.
\<close>

theorem mandelbrot_first_escape:
  assumes "1 \<le> n" and "n \<le> 2000"
  shows "(\<forall>i. int i < n \<longrightarrow> escapes_at c z0 i \<longrightarrow> (\<forall>j<i. \<not> escapes_at c z0 j) \<longrightarrow>
            mandelbrot n c z0 =
              (let m = dot (orbit c z0 (Suc i)) (orbit c z0 (Suc i));
                   logZn = ln m / 2;
                   nu = ln (logZn / ln 2) / ln 2
               in real i + 1 - nu))
       \<and> ((\<forall>i. int i < n \<longrightarrow> \<not> escapes_at c z0 i) \<longrightarrow> mandelbrot n c z0 = - 1)"
proof (intro conjI allI impI)
  fix i
  assume "int i < n" "escapes_at c z0 i" "\<forall>j<i. \<not> escapes_at c z0 j"
  then show "mandelbrot n c z0 =
              (let m = dot (orbit c z0 (Suc i)) (orbit c z0 (Suc i));
                   logZn = ln m / 2;
                   nu = ln (logZn / ln 2) / ln 2
               in real i + 1 - nu)"
    using assms mandelbrot_loop_escape [of i 0 n c z0]
    by (simp add: mandelbrot_def smoothValue_def Let_def)
next
  assume "\<forall>i. int i < n \<longrightarrow> \<not> escapes_at c z0 i"
  then show "mandelbrot n c z0 = - 1"
    using mandelbrot_loop_no_escape [of 0 n c z0] by (simp add: mandelbrot_def)
qed

subsection \<open>Concrete orbits\<close>

lemma orbit_2_0:
  "orbit (2, 0) (0, 0) (Suc 0) = (2, 0)"
  "orbit (2, 0) (0, 0) (Suc (Suc 0)) = (6, 0)"
  "orbit (2, 0) (0, 0) (Suc (Suc (Suc 0))) = (38, 0)"
  by (simp_all add: vadd_def complexSquare_def)

lemma escapes_2_0:
  "\<not> escapes_at (2, 0) (0, 0) 0"
  "\<not> escapes_at (2, 0) (0, 0) (Suc 0)"
  "escapes_at (2, 0) (0, 0) (Suc (Suc 0))"
  unfolding escapes_at_def orbit_2_0 by (simp_all add: dot_def)

lemma less_2_cases: "j < Suc (Suc 0) \<Longrightarrow> j = 0 \<or> j = Suc 0"
  by auto

lemma mandelbrot_2_0_budget_3: "3 \<le> n \<Longrightarrow> mandelbrot n (2, 0) (0, 0) = smoothValue 2 1444"
  using mandelbrot_loop_escape [of "Suc (Suc 0)" 0 n "(2, 0)" "(0, 0)"] escapes_2_0
  unfolding mandelbrot_def orbit_2_0 by (auto simp add: dot_def dest!: less_2_cases)

theorem mandelbrot_first_escape_witness:
  "(1::int) \<le> 3 \<and> (3::int) \<le> 2000
   \<and> \<not> escapes_at (2, 0) (0, 0) 0 \<and> \<not> escapes_at (2, 0) (0, 0) (Suc 0)
   \<and> escapes_at (2, 0) (0, 0) (Suc (Suc 0))
   \<and> mandelbrot 3 (2, 0) (0, 0) = 2 + 1 - ln (ln 1444 / 2 / ln 2) / ln 2
   \<and> mandelbrot 1 (0, 0) (0, 0) = - 1"
proof -
  have a: "\<forall>j<Suc (Suc 0). \<not> escapes_at (2, 0) (0, 0) j"
    using escapes_2_0 by (auto dest!: less_2_cases)
  have b: "\<forall>i. int i < 1 \<longrightarrow> \<not> escapes_at (0, 0) (0, 0) i"
    by (simp add: escapes_at_def vadd_def complexSquare_def dot_def)
  have "mandelbrot 3 (2, 0) (0, 0) = 2 + 1 - ln (ln 1444 / 2 / ln 2) / ln 2"
    using mandelbrot_first_escape [of 3 "(2, 0)" "(0, 0)", THEN conjunct1, rule_format,
        of "Suc (Suc 0)"] a escapes_2_0(3)
    unfolding orbit_2_0 by (simp add: dot_def)
  moreover have "mandelbrot 1 (0, 0) (0, 0) = - 1"
    using mandelbrot_first_escape [of 1 "(0, 0)" "(0, 0)", THEN conjunct2] b by simp
  ultimately show ?thesis using escapes_2_0 by simp
qed

subsection \<open>The origin never escapes\<close>

lemma mandelbrot_loop_origin_gen:
  "c = (0, 0) \<Longrightarrow> z = (0, 0) \<Longrightarrow> mandelbrot_loop n c z i = - 1"
proof (induction n c z i rule: mandelbrot_loop.induct)
  case (1 n c z i)
  have step: "vadd (complexSquare z) c = (0, 0)"
    using "1.prems" by (simp add: vadd_def complexSquare_def)
  show ?case
  proof (cases "i < 2000 \<and> \<not> n \<le> i")
    case True
    have "mandelbrot_loop n c (0, 0) (i + 1) = - 1"
      using True "1.IH" [of "(0, 0)" 0] "1.prems" step
      by (simp add: dot_def)
    with True step show ?thesis
      by (subst mandelbrot_loop.simps) (simp add: dot_def)
  next
    case False
    then show ?thesis
      by (subst mandelbrot_loop.simps) auto
  qed
qed

lemma mandelbrot_loop_origin:
  "mandelbrot_loop n (0, 0) (0, 0) i = - 1"
  by (rule mandelbrot_loop_origin_gen) simp_all

lemma orbit_origin: "orbit (0, 0) (0, 0) k = (0, 0)"
  by (induction k) (simp_all add: vadd_def complexSquare_def)

text \<open>
  C5. In-set determinism: for every iteration budget between 1 and 2000 the evaluator,
  applied to \<open>c = 0\<close> with \<open>z0 = 0\<close>, never passes the escape test and returns the in-set
  sentinel \<open>-1\<close>.
\<close>

theorem origin_in_set:
  "1 \<le> n \<Longrightarrow> n \<le> 2000 \<Longrightarrow>
     (\<forall>i. \<not> escapes_at (0, 0) (0, 0) i) \<and> mandelbrot n (0, 0) (0, 0) = - 1"
  unfolding escapes_at_def orbit_origin
  by (simp add: mandelbrot_def mandelbrot_loop_origin dot_def)

theorem origin_in_set_witness:
  "(1::int) \<le> 150 \<and> (150::int) \<le> 2000 \<and> \<not> escapes_at (0, 0) (0, 0) 149
     \<and> mandelbrot 150 (0, 0) (0, 0) = - 1"
  using origin_in_set [of 150] by simp

subsection \<open>The point \<open>c = 2\<close>\<close>

text \<open>
  C6 as stated: \<open>c = (2, 0)\<close> with \<open>z0 = 0\<close> escapes on iteration 1. It does not: the
  iterates are 2, 6, 38, the test at loop index 1 sees \<open>|z|\<^sup>2 = 36\<close>, and with a budget of 2
  the evaluator returns the in-set sentinel.
\<close>

theorem escape_2_0_at_index_1_counterexample:
  "orbit (2, 0) (0, 0) (Suc (Suc 0)) = (6, 0) \<and> \<not> escapes_at (2, 0) (0, 0) (Suc 0)
   \<and> mandelbrot 2 (2, 0) (0, 0) = - 1"
proof -
  have "\<forall>j. int j + 0 < 2 \<longrightarrow> int j + 0 < 2000 \<longrightarrow> \<not> escapes_at (2, 0) (0, 0) j"
  proof (intro allI impI)
    fix j assume "int j + 0 < 2"
    then have "j = 0 \<or> j = Suc 0" by auto
    then show "\<not> escapes_at (2, 0) (0, 0) j" using escapes_2_0 by auto
  qed
  then have "mandelbrot 2 (2, 0) (0, 0) = - 1"
    unfolding mandelbrot_def by (rule mandelbrot_loop_no_escape)
  then show ?thesis using escapes_2_0 orbit_2_0 by simp
qed

text \<open>
  C6, amended: for \<open>c = (2, 0)\<close> with \<open>z0 = 0\<close> the escape test fails at loop indices 0 and
  1 and first succeeds at loop index 2 (\<open>|z|\<^sup>2 = 1444\<close>); the evaluator returns the smooth
  value \<open>2 + 1 - nu\<close> for every budget of at least 3, and the in-set sentinel for a smaller
  budget.
\<close>

theorem escape_2_0_at_index_2:
  "\<not> escapes_at (2, 0) (0, 0) 0 \<and> \<not> escapes_at (2, 0) (0, 0) (Suc 0)
   \<and> escapes_at (2, 0) (0, 0) (Suc (Suc 0))
   \<and> mandelbrot n (2, 0) (0, 0) = (if 3 \<le> n then smoothValue 2 1444 else - 1)"
proof -
  have "mandelbrot n (2, 0) (0, 0) = - 1" if "\<not> 3 \<le> n"
  proof -
    have "\<forall>j. int j + 0 < n \<longrightarrow> int j + 0 < 2000 \<longrightarrow> \<not> escapes_at (2, 0) (0, 0) j"
    proof (intro allI impI)
      fix j assume "int j + 0 < n"
      with that have "j = 0 \<or> j = Suc 0" by auto
      then show "\<not> escapes_at (2, 0) (0, 0) j" using escapes_2_0 by auto
    qed
    then show ?thesis unfolding mandelbrot_def by (rule mandelbrot_loop_no_escape)
  qed
  then show ?thesis using mandelbrot_2_0_budget_3 [of n] escapes_2_0 by simp
qed

theorem escape_2_0_at_index_2_witness:
  "escapes_at (2, 0) (0, 0) (Suc (Suc 0)) \<and> mandelbrot 150 (2, 0) (0, 0) = smoothValue 2 1444
   \<and> mandelbrot 1 (2, 0) (0, 0) = - 1"
  using escape_2_0_at_index_2 [of 150] escape_2_0_at_index_2 [of 1] by simp

subsection \<open>Negative smooth values\<close>

lemma smoothValue_less:
  assumes "256 < m"
  shows "smoothValue i m < real_of_int i - 1"
proof -
  have ln2: "0 < ln (2::real)" by simp
  have "ln (256::real) = ln (2 ^ 8)" by simp
  also have "\<dots> = 8 * ln 2" by (subst ln_realpow) simp
  finally have l256: "ln (256::real) = 8 * ln 2" .
  have "ln 256 < ln m" using assms by simp
  then have "4 * ln 2 < ln m / 2" using l256 by simp
  then have four: "4 < ln m / 2 / ln 2" using ln2 by (simp add: less_divide_eq)
  have "ln (4::real) = ln (2 ^ 2)" by simp
  also have "\<dots> = 2 * ln 2" by (subst ln_realpow) simp
  finally have l4: "ln (4::real) = 2 * ln 2" .
  have "ln 4 < ln (ln m / 2 / ln 2)" using four by simp
  then have "2 < ln (ln m / 2 / ln 2) / ln 2" using l4 ln2 by (simp add: less_divide_eq)
  then show ?thesis by (simp add: smoothValue_def Let_def)
qed

text \<open>
  C10. Sentinel collision: the sample \<open>c = (16.1, 0)\<close> with \<open>z0 = 0\<close> passes the escape test
  at loop index 0, its smooth value \<open>0 + 1 - nu\<close> is negative, and \<open>main\<close>, which takes
  \<open>iter < 0\<close> for the in-set case, gives this escaped point the in-set colour.
\<close>

theorem sentinel_collision:
  assumes "1 \<le> n"
  shows "escapes_at (161 / 10, 0) (0, 0) 0
    \<and> mandelbrot n (161 / 10, 0) (0, 0) = smoothValue 0 (25921 / 100)
    \<and> mandelbrot n (161 / 10, 0) (0, 0) < 0
    \<and> main_in_set
         \<lparr>u_center = (161 / 10, 0), u_centerDP = ((161 / 10, 0), (0, 0)), u_zoom = 1,
          u_useDP = False, u_maxIterations = n, u_colorPalette = 0, u_isJulia = False,
          u_juliaC = (- 7 / 10, 27015 / 100000), u_resolution = (800, 600), u_time = 0\<rparr>
         (1 / 2, 1 / 2)"
proof -
  have o1: "orbit (161 / 10, 0) (0, 0) (Suc 0) = (161 / 10, 0)"
    by (simp add: vadd_def complexSquare_def)
  have esc: "escapes_at (161 / 10, 0) (0, 0) 0"
    unfolding escapes_at_def o1 by (simp add: dot_def)
  have val: "mandelbrot n (161 / 10, 0) (0, 0) = smoothValue 0 (25921 / 100)"
    using escape_at_first_index [OF assms esc] unfolding o1 by (simp add: dot_def)
  have neg: "smoothValue 0 (25921 / 100) < 0"
    using smoothValue_less [of "25921 / 100" 0] by simp
  have "main_in_set
         \<lparr>u_center = (161 / 10, 0), u_centerDP = ((161 / 10, 0), (0, 0)), u_zoom = 1,
          u_useDP = False, u_maxIterations = n, u_colorPalette = 0, u_isJulia = False,
          u_juliaC = (- 7 / 10, 27015 / 100000), u_resolution = (800, 600), u_time = 0\<rparr>
         (1 / 2, 1 / 2)"
    using val neg by (simp add: main_in_set_def main_iter_def vadd_def)
  with esc val neg show ?thesis by simp
qed

theorem sentinel_collision_witness:
  "(1::int) \<le> 150 \<and> escapes_at (161 / 10, 0) (0, 0) 0
    \<and> mandelbrot 150 (161 / 10, 0) (0, 0) < 0
    \<and> main_in_set
         \<lparr>u_center = (161 / 10, 0), u_centerDP = ((161 / 10, 0), (0, 0)), u_zoom = 1,
          u_useDP = False, u_maxIterations = 150, u_colorPalette = 0, u_isJulia = False,
          u_juliaC = (- 7 / 10, 27015 / 100000), u_resolution = (800, 600), u_time = 0\<rparr>
         (1 / 2, 1 / 2)"
  using sentinel_collision [of 150] by simp

subsection \<open>Double-float evaluation under exact arithmetic\<close>

lemma ds_high_parts:
  "fst (ds_add a b) = fst a + fst b"
  "fst (ds_add_f a r) = fst a + r"
  "fst (ds_mul a b) = fst a * fst b"
  "fst (ds_mul_f a r) = fst a * r"
  by (simp_all add: ds_add_def ds_add_f_def ds_mul_def ds_mul_f_def Let_def)

lemma complexSquareDP_high_parts:
  "fst (fst (complexSquareDP zx zy)) = fst (complexSquare (fst zx, fst zy))"
  "fst (snd (complexSquareDP zx zy)) = snd (complexSquare (fst zx, fst zy))"
  by (simp_all add: complexSquareDP_def complexSquare_def ds_high_parts Let_def)

lemma mandelbrotDP_loop_high_parts:
  "c = (fst cx, fst cy) \<Longrightarrow> z = (fst zx, fst zy) \<Longrightarrow>
   mandelbrotDP_loop n cx cy zx zy i = mandelbrot_loop n c z i"
proof (induction n cx cy zx zy i arbitrary: c z rule: mandelbrotDP_loop.induct)
  case (1 n cx cy zx zy i)
  let ?newZ = "complexSquareDP zx zy"
  let ?zx' = "ds_add (fst ?newZ) cx"
  let ?zy' = "ds_add (snd ?newZ) cy"
  let ?m = "fst ?zx' * fst ?zx' + fst ?zy' * fst ?zy'"
  let ?z' = "vadd (complexSquare z) c"
  have z': "?z' = (fst ?zx', fst ?zy')"
    using "1.prems" by (simp add: vadd_def ds_high_parts complexSquareDP_high_parts)
  have m: "dot ?z' ?z' = ?m"
    unfolding z' by (simp add: dot_def)
  show ?case
  proof (cases "i < 2000 \<and> \<not> n \<le> i")
    case run: True
    show ?thesis
    proof (cases "?m > 256")
      case True
      with run m show ?thesis
        by (subst mandelbrotDP_loop.simps, subst mandelbrot_loop.simps) (simp add: Let_def)
    next
      case False
      with run have "mandelbrotDP_loop n cx cy ?zx' ?zy' (i + 1) = mandelbrot_loop n c ?z' (i + 1)"
        using "1.prems"(1) z' by (intro "1.IH" [of ?newZ ?zx' ?zy' ?m]) simp_all
      with run False m show ?thesis
        by (subst mandelbrotDP_loop.simps, subst mandelbrot_loop.simps) (simp add: Let_def)
    qed
  next
    case False
    then show ?thesis
      by (subst mandelbrotDP_loop.simps, subst mandelbrot_loop.simps) auto
  qed
qed

lemma mandelbrotDP_high_parts:
  "mandelbrotDP n cx cy zx zy = mandelbrot n (fst cx, fst cy) (fst zx, fst zy)"
  unfolding mandelbrotDP_def mandelbrot_def
  by (rule mandelbrotDP_loop_high_parts) simp_all

lemma mandelbrotDP_exact:
  "mandelbrotDP n (ds_set cx) (ds_set cy) (ds_set zx) (ds_set zy) = mandelbrot n (cx, cy) (zx, zy)"
  by (simp add: mandelbrotDP_high_parts ds_set_def)

text \<open>
  The low parts never reach a high part, the escape test or the smooth value: a pair
  \<open>(16, 1)\<close>, of value 17, is evaluated as 16.
\<close>

lemma mandelbrotDP_low_part_ignored:
  "mandelbrotDP 1 (16, 1) (0, 0) (0, 0) (0, 0) = - 1"
  "mandelbrot 1 (17, 0) (0, 0) = smoothValue 0 289"
proof -
  have "mandelbrot 1 (16, 0) (0, 0) = - 1"
    unfolding mandelbrot_def
    by (subst mandelbrot_loop.simps, subst mandelbrot_loop.simps)
      (simp add: Let_def vadd_def complexSquare_def dot_def)
  then show "mandelbrotDP 1 (16, 1) (0, 0) (0, 0) (0, 0) = - 1"
    by (simp add: mandelbrotDP_high_parts)
  show "mandelbrot 1 (17, 0) (0, 0) = smoothValue 0 289"
    unfolding mandelbrot_def
    by (subst mandelbrot_loop.simps) (simp add: Let_def vadd_def complexSquare_def dot_def)
qed

text \<open>
  When \<open>animate\<close> switches the double-float branch on, it writes the centre into
  \<open>u_centerDP\<close> with zero low parts.
\<close>

lemma animate_uniforms_centerDP:
  assumes "u_useDP (animate_uniforms view U)"
  shows "u_centerDP (animate_uniforms view U)
     = (ds_set (fst (u_center (animate_uniforms view U))),
        ds_set (snd (u_center (animate_uniforms view U))))"
  using assms by (simp add: animate_uniforms_def Let_def ds_set_def split: if_splits)

text \<open>
  C4. Extended-precision equivalence: under exact arithmetic \<open>mandelbrotDP\<close>, applied to
  the double-floats of a sample \<open>c\<close> and an initial value \<open>z0\<close>, returns what \<open>mandelbrot\<close>
  returns on \<open>c\<close> and \<open>z0\<close> with the same budget; and for every fragment of a view with zoom
  at most \<open>10\<^sup>5\<close> whose \<open>u_centerDP\<close> holds the centre with zero low parts (as the renderer
  sets it), the two branches of \<open>main\<close> compute the same \<open>iter\<close>.
\<close>

theorem extended_precision_equivalence:
  assumes "0 < u_zoom U" and "u_zoom U \<le> 10 ^ 5"
    and "u_centerDP U = (ds_set (fst (u_center U)), ds_set (snd (u_center U)))"
  shows "mandelbrotDP n (ds_set cx) (ds_set cy) (ds_set zx) (ds_set zy)
           = mandelbrot n (cx, cy) (zx, zy)
       \<and> main_iter (U\<lparr>u_useDP := True\<rparr>) vUv = main_iter (U\<lparr>u_useDP := False\<rparr>) vUv"
proof -
  have "main_iter (U\<lparr>u_useDP := True\<rparr>) vUv = main_iter (U\<lparr>u_useDP := False\<rparr>) vUv"
    using assms(3)
    by (simp add: main_iter_def Let_def mandelbrotDP_high_parts ds_high_parts ds_set_def vadd_def)
  then show ?thesis by (simp add: mandelbrotDP_exact)
qed

theorem extended_precision_equivalence_witness:
  "mandelbrotDP 150 (ds_set 2) (ds_set 0) (ds_set 0) (ds_set 0) = mandelbrot 150 (2, 0) (0, 0)
   \<and> main_iter
       \<lparr>u_center = (- 1 / 2, 0), u_centerDP = ((- 1 / 2, 0), (0, 0)), u_zoom = 1,
        u_useDP = True, u_maxIterations = 150, u_colorPalette = 0, u_isJulia = False,
        u_juliaC = (- 7 / 10, 27015 / 100000), u_resolution = (800, 600), u_time = 0\<rparr>
       (1 / 4, 3 / 4)
     = main_iter
       \<lparr>u_center = (- 1 / 2, 0), u_centerDP = ((- 1 / 2, 0), (0, 0)), u_zoom = 1,
        u_useDP = False, u_maxIterations = 150, u_colorPalette = 0, u_isJulia = False,
        u_juliaC = (- 7 / 10, 27015 / 100000), u_resolution = (800, 600), u_time = 0\<rparr>
       (1 / 4, 3 / 4)"
  using extended_precision_equivalence
    [of "\<lparr>u_center = (- 1 / 2, 0), u_centerDP = ((- 1 / 2, 0), (0, 0)), u_zoom = 1,
        u_useDP = False, u_maxIterations = 150, u_colorPalette = 0, u_isJulia = False,
        u_juliaC = (- 7 / 10, 27015 / 100000), u_resolution = (800, 600), u_time = 0\<rparr>"
      150 2 0 0 0 "(1 / 4, 3 / 4)"]
  by (simp add: ds_set_def)

subsection \<open>The iteration budget\<close>

lemma iterations_range: "100 \<le> iterations z \<and> iterations z \<le> 2000"
  by (simp add: iterations_def)

lemma iterations_mono:
  assumes "0 < z1" and "z1 \<le> z2"
  shows "iterations z1 \<le> iterations z2"
proof -
  have "log 10 z1 \<le> log 10 z2" using assms by simp
  then have "\<lfloor>100 + log 10 z1 * 50\<rfloor> \<le> \<lfloor>100 + log 10 z2 * 50\<rfloor>"
    by (intro floor_mono) simp
  then show ?thesis unfolding iterations_def by simp
qed

lemma budget_expression:
  assumes "0 < z"
  shows "Math_min (Num 2000)
           (Math_max (Num 100)
              (Math_floor (js_plus (Num 100) (js_times (Math_log10 (Num z)) (Num 50)))))
         = Num (real_of_int (iterations z))"
  using assms by (simp add: iterations_def)

lemma budget_expression_zero:
  "Math_min (Num 2000)
     (Math_max (Num 100)
        (Math_floor (js_plus (Num 100) (js_times (Math_log10 (Num 0)) (Num 50)))))
   = Num 100"
  by simp

lemma budget_expression_negative:
  assumes "z < 0"
  shows "Math_min (Num 2000)
           (Math_max (Num 100)
              (Math_floor (js_plus (Num 100) (js_times (Math_log10 (Num z)) (Num 50)))))
         = NaN"
  using assms by simp

text \<open>
  C3. The iteration budget \<open>iterations(zoom) = min(2000, max(100, floor(100 + log10(zoom) \<cdot> 50)))\<close>
  is non-decreasing in a positive zoom and lies between 100 and 2000, and both the wheel
  handler and the auto-zoom callback pass to \<open>onStateChange\<close> the value of this formula at
  their new zoom.
\<close>

theorem iteration_budget:
  assumes "0 < z1" and "z1 \<le> z2"
    and "0 < targetZoom view" and "0 \<le> animationSpeed state" and "autoZoom state"
  shows "iterations z1 \<le> iterations z2 \<and> 100 \<le> iterations z1 \<and> iterations z1 \<le> 2000
    \<and> (\<exists>c. handleWheel (Some r) e view =
          Some [Set_center c,
                Set_zoom (Num (targetZoom view * (if deltaY e > 0 then 0.9 else 1.1))),
                Set_maxIterations (Num (real_of_int
                  (iterations (targetZoom view * (if deltaY e > 0 then 0.9 else 1.1)))))])
    \<and> autoZoomTick state view =
          Some [Set_zoom (Num (targetZoom view * (1 + animationSpeed state * 0.01))),
                Set_maxIterations (Num (real_of_int
                  (iterations (targetZoom view * (1 + animationSpeed state * 0.01)))))]"
proof -
  have w: "0 < targetZoom view * (if deltaY e > 0 then 0.9 else 1.1)"
    using assms(3) by simp
  have a: "0 < targetZoom view * (1 + animationSpeed state * 0.01)"
    using assms(3,4) by (intro mult_pos_pos) simp_all
  have "\<exists>c. handleWheel (Some r) e view =
          Some [Set_center c,
                Set_zoom (Num (targetZoom view * (if deltaY e > 0 then 0.9 else 1.1))),
                Set_maxIterations (Num (real_of_int
                  (iterations (targetZoom view * (if deltaY e > 0 then 0.9 else 1.1)))))]"
    unfolding handleWheel_def Let_def by (simp only: budget_expression [OF w] option.case) blast
  moreover have "autoZoomTick state view =
          Some [Set_zoom (Num (targetZoom view * (1 + animationSpeed state * 0.01))),
                Set_maxIterations (Num (real_of_int
                  (iterations (targetZoom view * (1 + animationSpeed state * 0.01)))))]"
    unfolding autoZoomTick_def Let_def using assms(5) by (simp only: budget_expression [OF a]) simp
  ultimately show ?thesis
    using iterations_mono [OF assms(1,2)] iterations_range [of z1] by blast
qed

theorem iteration_budget_witness:
  "iterations 1 \<le> iterations 10 \<and> 100 \<le> iterations 1 \<and> iterations 1 \<le> 2000
   \<and> iterations 1 = 100 \<and> iterations 10 = 150
   \<and> autoZoomTick (DEFAULT_STATE\<lparr>autoZoom := True\<rparr>)
        \<lparr>ViewState.center = (- 1 / 2, 0), zoom = 1, targetCenter = (- 1 / 2, 0), targetZoom = 1\<rparr>
      = Some [Set_zoom (Num (103 / 100)), Set_maxIterations (Num (real_of_int (iterations (103 / 100))))]"
proof -
  have "iterations 1 = 100" "iterations 10 = 150"
    by (simp_all add: iterations_def)
  then show ?thesis
    using iteration_budget [of 1 10
      "\<lparr>ViewState.center = (- 1 / 2, 0), zoom = 1, targetCenter = (- 1 / 2, 0), targetZoom = 1\<rparr>"
      "DEFAULT_STATE\<lparr>autoZoom := True\<rparr>"
      "\<lparr>left = 0, top = 0, width = 800, height = 600\<rparr>"
      "\<lparr>clientX = 300, clientY = 300, deltaY = - 100\<rparr>"]
    by (simp add: DEFAULT_STATE_def)
qed

subsection \<open>Zoom gestures\<close>

lemma handleWheel_result:
  "handleWheel (Some r) e view =
     Some [Set_center
             (Num (fst (targetCenter view) + fst (pointer r (clientX e, clientY e)) / targetZoom view
                   - fst (pointer r (clientX e, clientY e))
                       / (targetZoom view * (if deltaY e > 0 then 0.9 else 1.1))),
              Num (snd (targetCenter view) + snd (pointer r (clientX e, clientY e)) / targetZoom view
                   - snd (pointer r (clientX e, clientY e))
                       / (targetZoom view * (if deltaY e > 0 then 0.9 else 1.1)))),
           Set_zoom (Num (targetZoom view * (if deltaY e > 0 then 0.9 else 1.1))),
           Set_maxIterations
             (Math_min (Num 2000)
               (Math_max (Num 100)
                 (Math_floor (js_plus (Num 100)
                    (js_times (Math_log10 (Num (targetZoom view * (if deltaY e > 0 then 0.9 else 1.1))))
                       (Num 50))))))]"
  by (simp add: handleWheel_def pointer_def Let_def)

lemma merge_wheel:
  "merge state [Set_center c, Set_zoom z, Set_maxIterations m]
     = state\<lparr>center := c, zoom := z, maxIterations := m\<rparr>"
  by (simp add: merge_def)

lemma merge_zoom: "merge state [Set_zoom z] = state\<lparr>zoom := z\<rparr>"
  by (simp add: merge_def)

lemma handleTouchMove_pinch:
  assumes "isPinching i" and "lastPinchDistance i = Some d" and "d \<noteq> 0"
  shows "handleTouchMove rect [touch1, touch2] i view
     = (i\<lparr>lastPinchDistance :=
            Some (Math_hypot (fst touch2 - fst touch1) (snd touch2 - snd touch1))\<rparr>,
        view,
        Some [Set_zoom (Num (targetZoom view
          * (Math_hypot (fst touch2 - fst touch1) (snd touch2 - snd touch1) / d)))])"
  using assms by (simp add: handleTouchMove_def Let_def)

lemma hypot_400: "Math_hypot 400 0 = 400"
proof -
  have "sqrt ((400::real)\<^sup>2) = 400" by simp
  then show ?thesis by (simp add: Math_hypot_def power2_eq_square)
qed

text \<open>
  C1 as stated: every zoom gesture, the pinch included, keeps the world point under the
  pointer. The pinch does not: it passes only the new zoom to \<open>onStateChange\<close>. With the
  fingers at 100 and 500 of an 800 by 600 rectangle and a last distance of 200, the zoom
  doubles, the centre stays at \<open>(-1/2, 0)\<close>, and the point under the middle of the fingers
  moves from \<open>(-2/3, 0)\<close> to \<open>(-7/12, 0)\<close>.
\<close>

theorem pinch_cursor_anchor_counterexample:
  "handleTouchMove (Some \<lparr>left = 0, top = 0, width = 800, height = 600\<rparr>)
      [(100, 300), (500, 300)]
      \<lparr>isDragging = False, lastMousePos = None, velocity = (0, 0), isPinching = True,
       lastPinchDistance = Some 200\<rparr>
      \<lparr>ViewState.center = (- 1 / 2, 0), zoom = 1, targetCenter = (- 1 / 2, 0), targetZoom = 1\<rparr>
    = (\<lparr>isDragging = False, lastMousePos = None, velocity = (0, 0), isPinching = True,
        lastPinchDistance = Some 400\<rparr>,
       \<lparr>ViewState.center = (- 1 / 2, 0), zoom = 1, targetCenter = (- 1 / 2, 0), targetZoom = 1\<rparr>,
       Some [Set_zoom (Num 2)])
   \<and> stateEffect (merge DEFAULT_STATE [Set_zoom (Num 2)])
        \<lparr>ViewState.center = (- 1 / 2, 0), zoom = 1, targetCenter = (- 1 / 2, 0), targetZoom = 1\<rparr>
      = Some \<lparr>ViewState.center = (- 1 / 2, 0), zoom = 1, targetCenter = (- 1 / 2, 0), targetZoom = 2\<rparr>
   \<and> pointer \<lparr>left = 0, top = 0, width = 800, height = 600\<rparr> (300, 300) = (- 1 / 6, 0)
   \<and> screenToWorld (- 1 / 2, 0) 1 (- 1 / 6, 0) = (- 2 / 3, 0)
   \<and> screenToWorld (- 1 / 2, 0) 2 (- 1 / 6, 0) = (- 7 / 12, 0)"
  by (simp add: handleTouchMove_def Let_def hypot_400 merge_zoom stateEffect_def DEFAULT_STATE_def
      pointer_def screenToWorld_def vadd_def)

text \<open>
  C1, amended: a wheel gesture at pointer \<open>p\<close> (factor 1.1 or 0.9), on a layout rectangle
  with positive sides and a positive target zoom, leaves the world point under \<open>p\<close> where
  it was: \<open>newCenter + p / newZoom = targetCenter + p / targetZoom\<close>. A pinch multiplies the
  target zoom by the ratio of the finger distances and leaves the centre of the state
  unchanged.
\<close>

theorem wheel_cursor_anchor:
  assumes "0 < width r" and "0 < height r" and "0 < targetZoom view"
    and "p = pointer r (clientX e, clientY e)"
    and "isPinching i" and "lastPinchDistance i = Some d" and "d \<noteq> 0"
    and "scale = Math_hypot (fst touch2 - fst touch1) (snd touch2 - snd touch1) / d"
  shows "(\<exists>ups view'.
           handleWheel (Some r) e view = Some ups
         \<and> stateEffect (merge state ups) view = Some view'
         \<and> targetZoom view' = targetZoom view * (if deltaY e > 0 then 0.9 else 1.1)
         \<and> screenToWorld (targetCenter view') (targetZoom view') p
             = screenToWorld (targetCenter view) (targetZoom view) p)
       \<and> (handleTouchMove rect [touch1, touch2] i view
             = (i\<lparr>lastPinchDistance := Some (d * scale)\<rparr>, view,
                Some [Set_zoom (Num (targetZoom view * scale))])
           \<and> center (merge state [Set_zoom (Num (targetZoom view * scale))]) = center state)"
proof (rule conjI)
  let ?nz = "targetZoom view * (if deltaY e > 0 then 0.9 else 1.1)"
  let ?nc = "(fst (targetCenter view) + fst p / targetZoom view - fst p / ?nz,
              snd (targetCenter view) + snd p / targetZoom view - snd p / ?nz)"
  let ?view' = "view\<lparr>targetCenter := ?nc, targetZoom := ?nz\<rparr>"
  obtain m where hw: "handleWheel (Some r) e view =
      Some [Set_center (Num (fst ?nc), Num (snd ?nc)), Set_zoom (Num ?nz), Set_maxIterations m]"
    unfolding assms(4) using handleWheel_result [of r e view] by simp
  have se: "stateEffect (merge state [Set_center (Num (fst ?nc), Num (snd ?nc)), Set_zoom (Num ?nz),
      Set_maxIterations m]) view = Some ?view'"
    by (simp add: merge_wheel stateEffect_def)
  have "screenToWorld (targetCenter ?view') (targetZoom ?view') p
      = screenToWorld (targetCenter view) (targetZoom view) p"
    by (simp add: screenToWorld_def vadd_def)
  then show "\<exists>ups view'.
           handleWheel (Some r) e view = Some ups
         \<and> stateEffect (merge state ups) view = Some view'
         \<and> targetZoom view' = targetZoom view * (if deltaY e > 0 then 0.9 else 1.1)
         \<and> screenToWorld (targetCenter view') (targetZoom view') p
             = screenToWorld (targetCenter view) (targetZoom view) p"
    using hw se by (intro exI [of _ "[Set_center (Num (fst ?nc), Num (snd ?nc)), Set_zoom (Num ?nz),
      Set_maxIterations m]"] exI [of _ ?view']) simp
next
  have "d * scale = Math_hypot (fst touch2 - fst touch1) (snd touch2 - snd touch1)"
    unfolding assms(8) using assms(7) by simp
  then show "handleTouchMove rect [touch1, touch2] i view
             = (i\<lparr>lastPinchDistance := Some (d * scale)\<rparr>, view,
                Some [Set_zoom (Num (targetZoom view * scale))])
           \<and> center (merge state [Set_zoom (Num (targetZoom view * scale))]) = center state"
    unfolding assms(8) using handleTouchMove_pinch [OF assms(5-7), of rect touch1 touch2 view]
    by (simp add: merge_zoom)
qed

theorem wheel_cursor_anchor_witness:
  "(\<exists>ups view'.
      handleWheel (Some \<lparr>left = 0, top = 0, width = 800, height = 600\<rparr>)
        \<lparr>clientX = 300, clientY = 300, deltaY = - 100\<rparr>
        \<lparr>ViewState.center = (- 1 / 2, 0), zoom = 1, targetCenter = (- 1 / 2, 0), targetZoom = 1\<rparr>
        = Some ups
    \<and> stateEffect (merge DEFAULT_STATE ups)
        \<lparr>ViewState.center = (- 1 / 2, 0), zoom = 1, targetCenter = (- 1 / 2, 0), targetZoom = 1\<rparr>
        = Some view'
    \<and> targetZoom view'
        = targetZoom \<lparr>ViewState.center = (- 1 / 2, 0), zoom = 1, targetCenter = (- 1 / 2, 0), targetZoom = 1\<rparr>
          * (if deltaY \<lparr>clientX = 300, clientY = 300, deltaY = - 100\<rparr> > 0 then 0.9 else 1.1)
    \<and> screenToWorld (targetCenter view') (targetZoom view')
          (pointer \<lparr>left = 0, top = 0, width = 800, height = 600\<rparr> (300, 300))
        = screenToWorld
          (targetCenter \<lparr>ViewState.center = (- 1 / 2, 0), zoom = 1, targetCenter = (- 1 / 2, 0), targetZoom = 1\<rparr>)
          (targetZoom \<lparr>ViewState.center = (- 1 / 2, 0), zoom = 1, targetCenter = (- 1 / 2, 0), targetZoom = 1\<rparr>)
          (pointer \<lparr>left = 0, top = 0, width = 800, height = 600\<rparr> (300, 300)))
   \<and> (handleTouchMove (Some \<lparr>left = 0, top = 0, width = 800, height = 600\<rparr>)
          [(100, 300), (500, 300)]
          \<lparr>isDragging = False, lastMousePos = None, velocity = (0, 0), isPinching = True,
           lastPinchDistance = Some 200\<rparr>
          \<lparr>ViewState.center = (- 1 / 2, 0), zoom = 1, targetCenter = (- 1 / 2, 0), targetZoom = 1\<rparr>
        = (\<lparr>isDragging = False, lastMousePos = None, velocity = (0, 0), isPinching = True,
           lastPinchDistance = Some 200\<rparr>
             \<lparr>lastPinchDistance := Some (200 * 2)\<rparr>,
           \<lparr>ViewState.center = (- 1 / 2, 0), zoom = 1, targetCenter = (- 1 / 2, 0), targetZoom = 1\<rparr>,
           Some [Set_zoom (Num (targetZoom \<lparr>ViewState.center = (- 1 / 2, 0), zoom = 1, targetCenter = (- 1 / 2, 0), targetZoom = 1\<rparr> * 2))])
      \<and> center (merge DEFAULT_STATE [Set_zoom (Num (targetZoom \<lparr>ViewState.center = (- 1 / 2, 0), zoom = 1, targetCenter = (- 1 / 2, 0), targetZoom = 1\<rparr> * 2))])
          = center DEFAULT_STATE)"
  by (rule wheel_cursor_anchor) (simp_all add: hypot_400)

subsection \<open>Inertial pan\<close>

lemma animate_velocity:
  assumes "\<not> isDragging (snd s)"
  shows "velocity (snd (animate deltaTime w h s)) = inertia_step (velocity (snd s))
       \<and> \<not> isDragging (snd (animate deltaTime w h s))"
  using assms by (simp add: animate_def inertia_step_def Let_def)

lemma animate_frames_velocity:
  assumes "\<not> isDragging (snd s)"
  shows "velocity (snd (animate_frames w h deltaTimes s))
           = (inertia_step ^^ length deltaTimes) (velocity (snd s))
       \<and> \<not> isDragging (snd (animate_frames w h deltaTimes s))"
  using assms
proof (induction deltaTimes arbitrary: s)
  case Nil
  then show ?case by (simp add: animate_frames_def)
next
  case (Cons dt dts)
  have step: "animate_frames w h (dt # dts) s = animate_frames w h dts (animate dt w h s)"
    by (simp add: animate_frames_def)
  have nd: "\<not> isDragging (snd (animate dt w h s))"
    using animate_velocity [OF Cons.prems] by simp
  show ?case
    unfolding step using Cons.IH [OF nd] animate_velocity [OF Cons.prems, of dt w h]
    by (simp add: funpow_swap1)
qed

lemma inertia_step_zero: "(inertia_step ^^ n) (0, 0) = (0, 0)"
  by (induction n) (simp_all add: inertia_step_def)

lemma inertia_reaches_zero:
  "max \<bar>fst v\<bar> \<bar>snd v\<bar> * 0.85 ^ k \<le> 0.01 \<Longrightarrow> (inertia_step ^^ Suc k) v = (0, 0)"
proof (induction k arbitrary: v)
  case 0
  then show ?case by (auto simp: inertia_step_def)
next
  case (Suc k)
  show ?case
  proof (cases "\<bar>fst v\<bar> > 0.01 \<or> \<bar>snd v\<bar> > 0.01")
    case True
    then have st: "inertia_step v = (fst v * 0.85, snd v * 0.85)"
      by (simp add: inertia_step_def)
    have eq: "max (abs (fst (inertia_step v))) (abs (snd (inertia_step v)))
        = max (abs (fst v)) (abs (snd v)) * 0.85"
      unfolding st by (simp add: abs_mult max_def)
    have "max (abs (fst (inertia_step v))) (abs (snd (inertia_step v))) * 0.85 ^ k
        = max (abs (fst v)) (abs (snd v)) * 0.85 ^ Suc k"
      unfolding eq by (simp only: power_Suc mult.assoc)
    then have "max (abs (fst (inertia_step v))) (abs (snd (inertia_step v))) * 0.85 ^ k \<le> 0.01"
      using Suc.prems by (simp only:)
    then have "(inertia_step ^^ Suc k) (inertia_step v) = (0, 0)"
      by (rule Suc.IH)
    then show ?thesis by (simp only: funpow_Suc_right o_apply)
  next
    case False
    then have "inertia_step v = (0, 0)" by (simp add: inertia_step_def)
    then have "(inertia_step ^^ Suc (Suc k)) v = (inertia_step ^^ Suc k) (0, 0)"
      by (simp only: funpow_Suc_right o_apply)
    then show ?thesis by (simp only: inertia_step_zero)
  qed
qed

lemma inertia_stays_zero:
  assumes "(inertia_step ^^ m) v = (0, 0)" and "m \<le> n"
  shows "(inertia_step ^^ n) v = (0, 0)"
proof -
  have "n = (n - m) + m" using assms(2) by simp
  then have "(inertia_step ^^ n) v = (inertia_step ^^ ((n - m) + m)) v" by simp
  also have "\<dots> = (inertia_step ^^ (n - m)) ((inertia_step ^^ m) v)"
    by (simp only: funpow_add o_apply)
  finally show ?thesis by (simp only: assms(1) inertia_step_zero)
qed

lemma inertia_above_threshold:
  "(\<forall>j<k. max \<bar>fst v\<bar> \<bar>snd v\<bar> * 0.85 ^ j > 0.01) \<Longrightarrow>
   (inertia_step ^^ k) v = (fst v * 0.85 ^ k, snd v * 0.85 ^ k)"
proof (induction k)
  case 0
  then show ?case by simp
next
  case (Suc k)
  then have ih: "(inertia_step ^^ k) v = (fst v * 0.85 ^ k, snd v * 0.85 ^ k)" by simp
  have "max \<bar>fst v\<bar> \<bar>snd v\<bar> * 0.85 ^ k > 0.01" using Suc.prems by simp
  then have big: "\<bar>fst v * 0.85 ^ k\<bar> > 0.01 \<or> \<bar>snd v * 0.85 ^ k\<bar> > 0.01"
    by (simp add: abs_mult max_def split: if_splits)
  have "(inertia_step ^^ Suc k) v = inertia_step (fst v * 0.85 ^ k, snd v * 0.85 ^ k)"
    by (simp only: funpow.simps o_apply ih)
  also have "\<dots> = (fst v * 0.85 ^ k * 0.85, snd v * 0.85 ^ k * 0.85)"
    using big unfolding inertia_step_def by (simp only: fst_conv snd_conv if_True)
  finally show ?case by (simp add: mult.assoc)
qed

lemma decay_exists: "\<exists>k. (M::real) * 0.85 ^ k \<le> 0.01"
proof (cases "M \<le> 0")
  case True
  then have "M * 0.85 ^ 0 \<le> 0.01" by simp
  then show ?thesis by blast
next
  case False
  then have "0 < 0.01 / M" by simp
  then obtain k where "(0.85::real) ^ k < 0.01 / M"
    using real_arch_pow_inv [of "0.01 / M" "0.85"] by auto
  then have "M * 0.85 ^ k \<le> 0.01"
    using False by (simp add: field_simps)
  then show ?thesis by blast
qed

lemma decay_57_frames: "(100::real) * 0.85 ^ 57 \<le> 0.01"
  by (simp add: power_divide)

lemma decay_49_frames: "(100::real) * 0.85 ^ 49 > 0.01"
  by (simp add: power_divide)

lemma frames_reach_zero:
  assumes "\<not> isDragging (snd s)"
    and "max (abs (fst (velocity (snd s)))) (abs (snd (velocity (snd s)))) * 0.85 ^ k \<le> 0.01"
    and "Suc k \<le> length deltaTimes"
  shows "velocity (snd (animate_frames w h deltaTimes s)) = (0, 0)"
  using animate_frames_velocity [OF assms(1), of w h deltaTimes]
    inertia_stays_zero [OF inertia_reaches_zero [OF assms(2)] assms(3)]
  by simp

text \<open>
  C9 as stated: from any velocity with components of absolute value at most 100 the
  velocity is \<open>(0, 0)\<close> within 50 frames. From \<open>(100, 0)\<close> it is \<open>100 \<cdot> 0.85\<^sup>5\<^sup>0\<close> after 50
  frames, which is above the threshold and not zero.
\<close>

theorem inertial_decay_50_ticks_counterexample:
  "abs (fst (velocity \<lparr>isDragging = False, lastMousePos = None, velocity = (100, 0), isPinching = False,
        lastPinchDistance = None\<rparr>)) \<le> 100 \<and> abs (snd (velocity \<lparr>isDragging = False, lastMousePos = None, velocity = (100, 0), isPinching = False,
        lastPinchDistance = None\<rparr>)) \<le> 100
   \<and> velocity (snd (animate_frames 800 600 (replicate 50 16) (\<lparr>ViewState.center = (- 1 / 2, 0), zoom = 1, targetCenter = (- 1 / 2, 0), targetZoom = 1\<rparr>, \<lparr>isDragging = False, lastMousePos = None, velocity = (100, 0), isPinching = False,
        lastPinchDistance = None\<rparr>)))
       = (100 * 0.85 ^ 50, 0)
   \<and> velocity (snd (animate_frames 800 600 (replicate 50 16) (\<lparr>ViewState.center = (- 1 / 2, 0), zoom = 1, targetCenter = (- 1 / 2, 0), targetZoom = 1\<rparr>, \<lparr>isDragging = False, lastMousePos = None, velocity = (100, 0), isPinching = False,
        lastPinchDistance = None\<rparr>))) \<noteq> (0, 0)"
proof -
  have "\<forall>j<50. max (abs (100::real)) (abs 0) * 0.85 ^ j > 0.01"
  proof (intro allI impI)
    fix j :: nat assume "j < 50"
    then have "(0.85::real) ^ 49 \<le> 0.85 ^ j"
      by (intro power_decreasing) simp_all
    then have "(100::real) * 0.85 ^ 49 \<le> 100 * 0.85 ^ j"
      by (rule mult_left_mono) simp
    then have "(0.01::real) < 100 * 0.85 ^ j"
      using decay_49_frames by linarith
    moreover have "max (abs (100::real)) (abs 0) = 100" by simp
    ultimately show "max (abs (100::real)) (abs 0) * 0.85 ^ j > 0.01"
      by (simp only:)
  qed
  then have "(inertia_step ^^ 50) (100, 0) = (100 * 0.85 ^ 50, 0 * 0.85 ^ 50)"
    using inertia_above_threshold [of 50 "(100, 0)"] by simp
  then have v: "velocity (snd (animate_frames 800 600 (replicate 50 16) (\<lparr>ViewState.center = (- 1 / 2, 0), zoom = 1, targetCenter = (- 1 / 2, 0), targetZoom = 1\<rparr>, \<lparr>isDragging = False, lastMousePos = None, velocity = (100, 0), isPinching = False,
        lastPinchDistance = None\<rparr>)))
      = (100 * 0.85 ^ 50, 0)"
    using animate_frames_velocity [of "(\<lparr>ViewState.center = (- 1 / 2, 0), zoom = 1, targetCenter = (- 1 / 2, 0), targetZoom = 1\<rparr>, \<lparr>isDragging = False, lastMousePos = None, velocity = (100, 0), isPinching = False,
        lastPinchDistance = None\<rparr>)" 800 600 "replicate 50 16"]
    by simp
  have "(100::real) * 0.85 ^ 50 \<noteq> 0" by simp
  with v show ?thesis by simp
qed

text \<open>
  C9, amended: while nothing is dragged, every velocity reaches exactly \<open>(0, 0)\<close> after a
  bounded number of frames and stays there; when both components are at most 100 in
  absolute value, 58 frames are enough.
\<close>

theorem inertial_decay_terminates:
  assumes "\<not> isDragging (snd s)"
  shows "(\<exists>N. \<forall>deltaTimes. N \<le> length deltaTimes \<longrightarrow>
            velocity (snd (animate_frames w h deltaTimes s)) = (0, 0))
       \<and> (abs (fst (velocity (snd s))) \<le> 100 \<and> abs (snd (velocity (snd s))) \<le> 100 \<longrightarrow>
            (\<forall>deltaTimes. 58 \<le> length deltaTimes \<longrightarrow>
               velocity (snd (animate_frames w h deltaTimes s)) = (0, 0)))"
proof (rule conjI)
  let ?M = "max (abs (fst (velocity (snd s)))) (abs (snd (velocity (snd s))))"
  obtain k where k: "?M * 0.85 ^ k \<le> 0.01"
    using decay_exists [of ?M] by blast
  have "\<forall>deltaTimes. Suc k \<le> length deltaTimes \<longrightarrow>
      velocity (snd (animate_frames w h deltaTimes s)) = (0, 0)"
    using frames_reach_zero [OF assms k] by blast
  then show "\<exists>N. \<forall>deltaTimes. N \<le> length deltaTimes \<longrightarrow>
      velocity (snd (animate_frames w h deltaTimes s)) = (0, 0)"
    by blast
next
  let ?M = "max (abs (fst (velocity (snd s)))) (abs (snd (velocity (snd s))))"
  show "abs (fst (velocity (snd s))) \<le> 100 \<and> abs (snd (velocity (snd s))) \<le> 100 \<longrightarrow>
      (\<forall>deltaTimes. 58 \<le> length deltaTimes \<longrightarrow>
         velocity (snd (animate_frames w h deltaTimes s)) = (0, 0))"
  proof (intro impI allI)
    fix deltaTimes :: "real list"
    assume b: "abs (fst (velocity (snd s))) \<le> 100 \<and> abs (snd (velocity (snd s))) \<le> 100"
      and l: "58 \<le> length deltaTimes"
    have "?M \<le> 100" using b by simp
    then have "?M * 0.85 ^ 57 \<le> 100 * 0.85 ^ 57"
      by (intro mult_right_mono) simp_all
    then have "?M * 0.85 ^ 57 \<le> 0.01" using decay_57_frames by linarith
    moreover have "Suc 57 \<le> length deltaTimes" using l by simp
    ultimately show "velocity (snd (animate_frames w h deltaTimes s)) = (0, 0)"
      using assms by (intro frames_reach_zero)
  qed
qed

theorem inertial_decay_terminates_witness:
  "\<not> isDragging (snd (\<lparr>ViewState.center = (- 1 / 2, 0), zoom = 1, targetCenter = (- 1 / 2, 0), targetZoom = 1\<rparr>, \<lparr>isDragging = False, lastMousePos = None, velocity = (100, 0), isPinching = False,
        lastPinchDistance = None\<rparr>))
   \<and> velocity (snd (animate_frames 800 600 (replicate 58 16) (\<lparr>ViewState.center = (- 1 / 2, 0), zoom = 1, targetCenter = (- 1 / 2, 0), targetZoom = 1\<rparr>, \<lparr>isDragging = False, lastMousePos = None, velocity = (100, 0), isPinching = False,
        lastPinchDistance = None\<rparr>))) = (0, 0)"
  using inertial_decay_terminates [of "(\<lparr>ViewState.center = (- 1 / 2, 0), zoom = 1, targetCenter = (- 1 / 2, 0), targetZoom = 1\<rparr>, \<lparr>isDragging = False, lastMousePos = None, velocity = (100, 0), isPinching = False,
        lastPinchDistance = None\<rparr>)" 800 600,
      THEN conjunct2, rule_format, of "replicate 58 16"]
  by simp

subsection \<open>Digits\<close>

lemma digit_char_props:
  assumes "d < 10"
  shows "is_digit (digit_char d)" and "digit_val (digit_char d) = d"
proof -
  from assms have "d \<in> {0, 1, 2, 3, 4, 5, 6, 7, 8, 9}" by auto
  then show "is_digit (digit_char d)" and "digit_val (digit_char d) = d"
    by (auto simp: digit_char_def is_digit_def digit_val_def)
qed

lemma digits_all: "\<forall>c\<in>set (digits n). is_digit c"
proof (induction n rule: digits.induct)
  case (1 n)
  show ?case
  proof (cases "n < 10")
    case True
    then show ?thesis by (subst digits.simps) (simp add: digit_char_props)
  next
    case False
    then show ?thesis using 1 by (subst digits.simps) (simp add: digit_char_props)
  qed
qed

lemma digits_value_snoc: "digits_value (s @ [c]) = 10 * digits_value s + digit_val c"
  by (simp add: digits_value_def)

lemma digits_value_digits: "digits_value (digits n) = n"
proof (induction n rule: digits.induct)
  case (1 n)
  show ?case
  proof (cases "n < 10")
    case True
    then show ?thesis
      by (subst digits.simps) (simp add: digits_value_def digit_char_props)
  next
    case False
    then have "digits_value (digits (n div 10)) = n div 10" using 1 by simp
    then show ?thesis using False
      by (subst digits.simps) (simp add: digits_value_snoc digit_char_props)
  qed
qed

lemma digits_nonempty: "digits n \<noteq> []"
  by (subst digits.simps) simp

lemma digits_value_zeros: "digits_value (replicate k CHR ''0'' @ s) = digits_value s"
proof (induction k)
  case 0 then show ?case by simp
next
  case (Suc k)
  have "\<And>a. foldl (\<lambda>a c. 10 * a + digit_val c) 0 (CHR ''0'' # a)
      = foldl (\<lambda>a c. 10 * a + digit_val c) 0 a"
    by (simp add: digit_val_def)
  then show ?case using Suc by (simp add: digits_value_def)
qed

lemma is_digit_zero: "is_digit CHR ''0''"
  by (simp add: is_digit_def)

lemma padded_digits:
  assumes "0 < f"
  shows "f < length (padded f n)" and "\<forall>c\<in>set (padded f n). is_digit c"
    and "digits_value (padded f n) = n"
proof -
  show "f < length (padded f n)" unfolding padded_def by auto
  show "\<forall>c\<in>set (padded f n). is_digit c"
    unfolding padded_def using digits_all [of n] by (auto simp: is_digit_zero)
  show "digits_value (padded f n) = n"
    unfolding padded_def by (simp add: digits_value_zeros digits_value_digits)
qed

lemma takeWhile_digits_point:
  assumes "\<forall>c\<in>set a. is_digit c"
  shows "takeWhile is_digit (a @ CHR ''.'' # b) = a"
    and "dropWhile is_digit (a @ CHR ''.'' # b) = CHR ''.'' # b"
proof -
  have np: "\<not> is_digit CHR ''.''" by (simp add: is_digit_def)
  show "takeWhile is_digit (a @ CHR ''.'' # b) = a"
    using assms np by (simp add: takeWhile_append2)
  show "dropWhile is_digit (a @ CHR ''.'' # b) = CHR ''.'' # b"
    using assms np by (simp add: dropWhile_append2)
qed

lemma takeWhile_all_digits:
  assumes "\<forall>c\<in>set b. is_digit c"
  shows "takeWhile is_digit b = b" and "dropWhile is_digit b = []"
  using assms by (simp_all add: takeWhile_eq_all_conv)

lemma digit_head:
  assumes "is_digit c"
  shows "\<not> is_space c" and "c \<noteq> CHR ''-''" and "c \<noteq> CHR ''+''" and "c \<noteq> CHR ''I''"
  using assms by (auto simp: is_digit_def is_space_def)

subsection \<open>Writing and reading a number\<close>

lemma parseFloat_fixed:
  assumes a: "a \<noteq> []" "\<forall>c\<in>set a. is_digit c" and b: "\<forall>c\<in>set b. is_digit c"
  shows "parseFloat (a @ CHR ''.'' # b) = Num (real (digits_value (a @ b)) / 10 ^ length b)"
    and "parseFloat (CHR ''-'' # a @ CHR ''.'' # b)
           = Num (- (real (digits_value (a @ b)) / 10 ^ length b))"
proof -
  obtain c a' where ac: "a = c # a'" using a(1) by (cases a) auto
  then have c: "is_digit c" using a(2) by simp
  have inf: "take 8 (a @ CHR ''.'' # b) \<noteq> ''Infinity''"
    using digit_head(4) [OF c] by (simp add: ac)
  have tw: "takeWhile is_digit (a @ CHR ''.'' # b) = a"
    "dropWhile is_digit (a @ CHR ''.'' # b) = CHR ''.'' # b"
    using takeWhile_digits_point [OF a(2)] by simp_all
  have twb: "takeWhile is_digit b = b" "dropWhile is_digit b = []"
    using takeWhile_all_digits [OF b] by simp_all
  have sp: "dropWhile is_space (a @ CHR ''.'' # b) = a @ CHR ''.'' # b"
    using digit_head(1) [OF c] by (simp add: ac)
  have body: "(case a @ CHR ''.'' # b of [] \<Rightarrow> []
      | c # r \<Rightarrow> if c = CHR ''-'' \<or> c = CHR ''+'' then r else a @ CHR ''.'' # b)
      = a @ CHR ''.'' # b"
    using digit_head(2,3) [OF c] by (simp add: ac)
  have neg: "(case a @ CHR ''.'' # b of [] \<Rightarrow> False | c # _ \<Rightarrow> c = CHR ''-'') = False"
    using digit_head(2) [OF c] by (simp add: ac)
  show "parseFloat (a @ CHR ''.'' # b) = Num (real (digits_value (a @ b)) / 10 ^ length b)"
    unfolding parseFloat_def Let_def sp body neg
    using inf a(1) by (simp add: tw twb exponent_def)
  have spm: "dropWhile is_space (CHR ''-'' # a @ CHR ''.'' # b) = CHR ''-'' # a @ CHR ''.'' # b"
    by (simp add: is_space_def)
  show "parseFloat (CHR ''-'' # a @ CHR ''.'' # b)
           = Num (- (real (digits_value (a @ b)) / 10 ^ length b))"
    unfolding parseFloat_def Let_def spm
    using inf a(1) by (simp add: tw twb exponent_def)
qed

lemma toFixed_Num:
  assumes "\<bar>x\<bar> < 10 ^ 21" and "0 < f"
  shows "toFixed big f (Num x) =
     (if x < 0 then ''-'' else [])
       @ take (length (padded f (nat \<lfloor>\<bar>x\<bar> * 10 ^ f + 1 / 2\<rfloor>)) - f)
           (padded f (nat \<lfloor>\<bar>x\<bar> * 10 ^ f + 1 / 2\<rfloor>))
       @ CHR ''.''
       # drop (length (padded f (nat \<lfloor>\<bar>x\<bar> * 10 ^ f + 1 / 2\<rfloor>)) - f)
           (padded f (nat \<lfloor>\<bar>x\<bar> * 10 ^ f + 1 / 2\<rfloor>))"
proof -
  have ab: "(if x < 0 then - x else x) = \<bar>x\<bar>" by simp
  have small: "\<not> 10 ^ 21 \<le> \<bar>x\<bar>" using assms(1) by simp
  show ?thesis
    unfolding toFixed_def Let_def jsnum.case ab padded_def
    using small assms(2) by (simp only: if_False) simp
qed

lemma parseFloat_toFixed:
  assumes "\<bar>x\<bar> < 10 ^ 21" and "0 < f"
  shows "parseFloat (toFixed big f (Num x)) = Num (toFixed_value f x)"
proof -
  let ?n = "nat \<lfloor>\<bar>x\<bar> * 10 ^ f + 1 / 2\<rfloor>"
  let ?m = "padded f ?n"
  let ?a = "take (length ?m - f) ?m"
  let ?b = "drop (length ?m - f) ?m"
  have len: "f < length ?m" and dig: "\<forall>c\<in>set ?m. is_digit c" and val: "digits_value ?m = ?n"
    using padded_digits [OF assms(2), of ?n] by simp_all
  have "0 < length ?a" using len by simp
  then have a1: "?a \<noteq> []" by auto
  have a2: "\<forall>c\<in>set ?a. is_digit c" using dig by (meson in_set_takeD)
  have b2: "\<forall>c\<in>set ?b. is_digit c" using dig by (meson in_set_dropD)
  have lb: "length ?b = f" using len by simp
  have ab: "?a @ ?b = ?m" by simp
  show ?thesis
  proof (cases "x < 0")
    case True
    then have "\<bar>x\<bar> = - x" by simp
    then show ?thesis
      using True parseFloat_fixed(2) [OF a1 a2 b2]
      unfolding toFixed_Num [OF assms] ab lb val toFixed_value_def
      by simp
  next
    case False
    then have "\<bar>x\<bar> = x" by simp
    then show ?thesis
      using False parseFloat_fixed(1) [OF a1 a2 b2]
      unfolding toFixed_Num [OF assms] ab lb val toFixed_value_def
      by simp
  qed
qed

lemma round_half_close:
  assumes "0 \<le> (y::real)"
  shows "\<bar>real (nat \<lfloor>y + 1 / 2\<rfloor>) - y\<bar> \<le> 1 / 2"
proof -
  have "0 \<le> \<lfloor>y + 1 / 2\<rfloor>" using assms by simp
  then have "real (nat \<lfloor>y + 1 / 2\<rfloor>) = of_int \<lfloor>y + 1 / 2\<rfloor>" by simp
  then show ?thesis by linarith
qed

lemma toFixed_value_close: "\<bar>toFixed_value f x - x\<bar> \<le> 1 / (2 * 10 ^ f)"
proof -
  have pos: "(0::real) < 10 ^ f" by simp
  have key: "\<bar>real (nat \<lfloor>y * 10 ^ f + 1 / 2\<rfloor>) / 10 ^ f - y\<bar> \<le> 1 / (2 * 10 ^ f)"
    if "0 \<le> y" for y :: real
  proof -
    have "\<bar>real (nat \<lfloor>y * 10 ^ f + 1 / 2\<rfloor>) - y * 10 ^ f\<bar> \<le> 1 / 2"
      using that by (intro round_half_close) simp
    then have "\<bar>real (nat \<lfloor>y * 10 ^ f + 1 / 2\<rfloor>) - y * 10 ^ f\<bar> / 10 ^ f \<le> (1 / 2) / 10 ^ f"
      using pos by (intro divide_right_mono) simp_all
    moreover have "\<bar>real (nat \<lfloor>y * 10 ^ f + 1 / 2\<rfloor>) - y * 10 ^ f\<bar> / 10 ^ f
        = \<bar>real (nat \<lfloor>y * 10 ^ f + 1 / 2\<rfloor>) / 10 ^ f - y\<bar>"
    proof -
      have "real (nat \<lfloor>y * 10 ^ f + 1 / 2\<rfloor>) / 10 ^ f - y
          = (real (nat \<lfloor>y * 10 ^ f + 1 / 2\<rfloor>) - y * 10 ^ f) / 10 ^ f"
        by (simp add: diff_divide_distrib)
      then have "\<bar>real (nat \<lfloor>y * 10 ^ f + 1 / 2\<rfloor>) / 10 ^ f - y\<bar>
          = \<bar>real (nat \<lfloor>y * 10 ^ f + 1 / 2\<rfloor>) - y * 10 ^ f\<bar> / \<bar>10 ^ f\<bar>"
        by (simp only: abs_divide)
      then show ?thesis by simp
    qed
    ultimately show ?thesis by simp
  qed
  show ?thesis
  proof (cases "x < 0")
    case True
    then have "\<bar>real (nat \<lfloor>(- x) * 10 ^ f + 1 / 2\<rfloor>) / 10 ^ f - (- x)\<bar> \<le> 1 / (2 * 10 ^ f)"
      by (intro key) simp
    then show ?thesis using True by (simp add: toFixed_value_def abs_if split: if_splits)
  next
    case False
    then show ?thesis using key [of x] by (simp add: toFixed_value_def)
  qed
qed

lemma parseInt_digits:
  "parseInt (digits n) = Num (real n)"
  "parseInt (CHR ''-'' # digits n) = Num (- real n)"
proof -
  obtain c r where d: "digits n = c # r" using digits_nonempty [of n] by (cases "digits n") auto
  have c: "is_digit c" using digits_all [of n] d by simp
  have tw: "takeWhile is_digit (digits n) = digits n"
    using takeWhile_all_digits(1) [of "digits n"] digits_all [of n] by simp
  have sp: "dropWhile is_space (digits n) = digits n"
    using digit_head(1) [OF c] by (simp add: d)
  have body: "(case digits n of [] \<Rightarrow> []
      | c # r \<Rightarrow> if c = CHR ''-'' \<or> c = CHR ''+'' then r else digits n) = digits n"
    using digit_head(2,3) [OF c] by (simp add: d)
  have neg: "(case digits n of [] \<Rightarrow> False | c # _ \<Rightarrow> c = CHR ''-'') = False"
    using digit_head(2) [OF c] by (simp add: d)
  show "parseInt (digits n) = Num (real n)"
    unfolding parseInt_def Let_def sp body neg tw
    using digits_nonempty [of n] by (simp add: digits_value_digits)
  have spm: "dropWhile is_space (CHR ''-'' # digits n) = CHR ''-'' # digits n"
    by (simp add: is_space_def)
  show "parseInt (CHR ''-'' # digits n) = Num (- real n)"
    unfolding parseInt_def Let_def spm
    using digits_nonempty [of n] by (simp add: tw digits_value_digits)
qed

lemma parseInt_toString:
  assumes "\<bar>i\<bar> < 2 ^ 53"
  shows "parseInt (Number_toString big (Num (real_of_int i))) = Num (real_of_int i)"
proof -
  have b: "\<bar>real_of_int i\<bar> < 2 ^ 53"
  proof -
    have "real_of_int \<bar>i\<bar> < real_of_int (2 ^ 53)" using assms by (simp only: of_int_less_iff)
    then show ?thesis by simp
  qed
  show ?thesis
  proof (cases "i < 0")
    case True
    then have "real (nat \<bar>i\<bar>) = - real_of_int i" by simp
    then show ?thesis using True b
      by (simp add: Number_toString_def parseInt_digits)
  next
    case False
    then have "real (nat \<bar>i\<bar>) = real_of_int i" by simp
    then show ?thesis using False b
      by (simp add: Number_toString_def parseInt_digits)
  qed
qed

subsection \<open>Encoding and decoding the state\<close>

lemma encodeUrl_pairs:
  "encodeUrl big state =
     [(''cx'', toFixed big 10 (fst (center state))),
      (''cy'', toFixed big 10 (snd (center state))),
      (''z'', toFixed big 6 (zoom state)),
      (''i'', Number_toString big (maxIterations state)),
      (''p'', Number_toString big (colorPalette state))]
     @ (if isJulia state
        then [(''j'', ''1''),
              (''jx'', toFixed big 10 (fst (juliaC state))),
              (''jy'', toFixed big 10 (snd (juliaC state)))]
        else [])"
  by (simp add: encodeUrl_def Let_def)

lemma loadUpdates_encodeUrl:
  "loadUpdates (encodeUrl big state) =
     [Set_center (parseFloat (toFixed big 10 (fst (center state))),
                  parseFloat (toFixed big 10 (snd (center state)))),
      Set_zoom (parseFloat (toFixed big 6 (zoom state))),
      Set_maxIterations (parseInt (Number_toString big (maxIterations state))),
      Set_colorPalette (parseInt (Number_toString big (colorPalette state)))]
     @ (if isJulia state
        then [Set_isJulia True,
              Set_juliaC (parseFloat (toFixed big 10 (fst (juliaC state))),
                          parseFloat (toFixed big 10 (snd (juliaC state))))]
        else [])"
  by (simp add: encodeUrl_pairs loadUpdates_def params_get_def Let_def)

lemma loadFromUrl_encodeUrl:
  "loadFromUrl prev (encodeUrl big state) =
     (if isJulia state then
        prev\<lparr>center := (parseFloat (toFixed big 10 (fst (center state))),
                         parseFloat (toFixed big 10 (snd (center state)))),
             zoom := parseFloat (toFixed big 6 (zoom state)),
             maxIterations := parseInt (Number_toString big (maxIterations state)),
             colorPalette := parseInt (Number_toString big (colorPalette state)),
             isJulia := True,
             juliaC := (parseFloat (toFixed big 10 (fst (juliaC state))),
                         parseFloat (toFixed big 10 (snd (juliaC state))))\<rparr>
      else
        prev\<lparr>center := (parseFloat (toFixed big 10 (fst (center state))),
                         parseFloat (toFixed big 10 (snd (center state)))),
             zoom := parseFloat (toFixed big 6 (zoom state)),
             maxIterations := parseInt (Number_toString big (maxIterations state)),
             colorPalette := parseInt (Number_toString big (colorPalette state))\<rparr>)"
  unfolding loadFromUrl_def Let_def loadUpdates_encodeUrl
  by (simp add: merge_def)

lemma merge_append: "merge s (a @ b) = merge (merge s a) b"
  by (simp add: merge_def)

lemma merge_Nil: "merge s [] = s"
  by (simp add: merge_def)

lemma merge_single: "merge s [u] = assign s u"
  by (simp add: merge_def)

lemma loadFromUrl_merge: "loadFromUrl prev params = merge prev (loadUpdates params)"
  by (cases "loadUpdates params") (simp_all add: loadFromUrl_def Let_def merge_def)

text \<open>
  C7 as stated: for \<open>isJulia = false\<close> too, encoding and decoding reproduce every field,
  the Julia constant among them. The encoder writes \<open>j\<close>, \<open>jx\<close> and \<open>jy\<close> only when \<open>isJulia\<close>
  holds: a state in Mandelbrot mode with the Julia constant \<open>(0.3, 0.5)\<close> comes back from
  its own URL, loaded over the default state, with the default constant
  \<open>(-0.7, 0.27015)\<close>.
\<close>

theorem url_round_trip_julia_constant_counterexample:
  "\<not> isJulia (DEFAULT_STATE\<lparr>juliaC := (Num (3 / 10), Num (1 / 2))\<rparr>)
   \<and> params_get (encodeUrl (\<lambda>x. []) (DEFAULT_STATE\<lparr>juliaC := (Num (3 / 10), Num (1 / 2))\<rparr>)) ''jx''
       = None
   \<and> params_get (encodeUrl (\<lambda>x. []) (DEFAULT_STATE\<lparr>juliaC := (Num (3 / 10), Num (1 / 2))\<rparr>)) ''j''
       = None
   \<and> juliaC (loadFromUrl DEFAULT_STATE
        (encodeUrl (\<lambda>x. []) (DEFAULT_STATE\<lparr>juliaC := (Num (3 / 10), Num (1 / 2))\<rparr>)))
       = (Num (- 7 / 10), Num (27015 / 100000))"
proof -
  have nj: "\<not> isJulia (DEFAULT_STATE\<lparr>juliaC := (Num (3 / 10), Num (1 / 2))\<rparr>)"
    by (simp add: DEFAULT_STATE_def)
  have "juliaC (loadFromUrl DEFAULT_STATE
        (encodeUrl (\<lambda>x. []) (DEFAULT_STATE\<lparr>juliaC := (Num (3 / 10), Num (1 / 2))\<rparr>)))
       = juliaC DEFAULT_STATE"
    unfolding loadFromUrl_encodeUrl using nj by simp
  then show ?thesis
    using nj by (simp add: encodeUrl_pairs params_get_def) (simp add: DEFAULT_STATE_def)
qed

text \<open>
  C7, amended: for a state whose numbers are finite (magnitudes below \<open>10\<^sup>2\<^sup>1\<close>, iteration
  count and palette index integers below \<open>2\<^sup>5\<^sup>3\<close>), decoding its encoding over any previous
  state gives the centre within \<open>0.5 \<cdot> 10\<^sup>-\<^sup>1\<^sup>0\<close>, the zoom within \<open>0.5 \<cdot> 10\<^sup>-\<^sup>6\<close>, and the
  iteration count and palette index exactly; when \<open>isJulia\<close> holds it also gives the flag
  and the Julia constant within \<open>0.5 \<cdot> 10\<^sup>-\<^sup>1\<^sup>0\<close>, and when it does not, the flag and the
  Julia constant of the previous state are kept.
\<close>

theorem url_round_trip:
  assumes "center state = (Num cx, Num cy)" and "zoom state = Num z"
    and "maxIterations state = Num (real_of_int i)"
    and "colorPalette state = Num (real_of_int p)"
    and "juliaC state = (Num jx, Num jy)"
    and "\<bar>cx\<bar> < 10 ^ 21" and "\<bar>cy\<bar> < 10 ^ 21" and "\<bar>z\<bar> < 10 ^ 21"
    and "\<bar>jx\<bar> < 10 ^ 21" and "\<bar>jy\<bar> < 10 ^ 21"
    and "\<bar>i\<bar> < 2 ^ 53" and "\<bar>p\<bar> < 2 ^ 53"
  shows "\<exists>cx' cy' z' jx' jy'.
           \<bar>cx' - cx\<bar> \<le> 1 / (2 * 10 ^ 10) \<and> \<bar>cy' - cy\<bar> \<le> 1 / (2 * 10 ^ 10)
         \<and> \<bar>z' - z\<bar> \<le> 1 / (2 * 10 ^ 6)
         \<and> \<bar>jx' - jx\<bar> \<le> 1 / (2 * 10 ^ 10) \<and> \<bar>jy' - jy\<bar> \<le> 1 / (2 * 10 ^ 10)
         \<and> loadFromUrl prev (encodeUrl big state) =
             (if isJulia state then
                prev\<lparr>center := (Num cx', Num cy'), zoom := Num z',
                     maxIterations := Num (real_of_int i), colorPalette := Num (real_of_int p),
                     isJulia := True, juliaC := (Num jx', Num jy')\<rparr>
              else
                prev\<lparr>center := (Num cx', Num cy'), zoom := Num z',
                     maxIterations := Num (real_of_int i),
                     colorPalette := Num (real_of_int p)\<rparr>)"
proof -
  have pf: "parseFloat (toFixed big 10 (Num cx)) = Num (toFixed_value 10 cx)"
    "parseFloat (toFixed big 10 (Num cy)) = Num (toFixed_value 10 cy)"
    "parseFloat (toFixed big 6 (Num z)) = Num (toFixed_value 6 z)"
    "parseFloat (toFixed big 10 (Num jx)) = Num (toFixed_value 10 jx)"
    "parseFloat (toFixed big 10 (Num jy)) = Num (toFixed_value 10 jy)"
    using assms(6-10) by (simp_all only: parseFloat_toFixed zero_less_numeral)
  have pi: "parseInt (Number_toString big (Num (real_of_int i))) = Num (real_of_int i)"
    "parseInt (Number_toString big (Num (real_of_int p))) = Num (real_of_int p)"
    using assms(11,12) by (simp_all only: parseInt_toString)
  have eq: "loadFromUrl prev (encodeUrl big state) =
             (if isJulia state then
                prev\<lparr>center := (Num (toFixed_value 10 cx), Num (toFixed_value 10 cy)),
                     zoom := Num (toFixed_value 6 z),
                     maxIterations := Num (real_of_int i), colorPalette := Num (real_of_int p),
                     isJulia := True,
                     juliaC := (Num (toFixed_value 10 jx), Num (toFixed_value 10 jy))\<rparr>
              else
                prev\<lparr>center := (Num (toFixed_value 10 cx), Num (toFixed_value 10 cy)),
                     zoom := Num (toFixed_value 6 z),
                     maxIterations := Num (real_of_int i),
                     colorPalette := Num (real_of_int p)\<rparr>)"
    unfolding loadFromUrl_encodeUrl assms(1-5) fst_conv snd_conv pf pi ..
  show ?thesis
    using eq toFixed_value_close [of 10 cx] toFixed_value_close [of 10 cy]
      toFixed_value_close [of 6 z] toFixed_value_close [of 10 jx] toFixed_value_close [of 10 jy]
    by blast
qed

theorem url_round_trip_witness:
  "\<exists>cx' cy' z' jx' jy'.
           \<bar>cx' - (- 1 / 2)\<bar> \<le> 1 / (2 * 10 ^ 10) \<and> \<bar>cy' - 0\<bar> \<le> 1 / (2 * 10 ^ 10)
         \<and> \<bar>z' - 1\<bar> \<le> 1 / (2 * 10 ^ 6)
         \<and> \<bar>jx' - (- 7 / 10)\<bar> \<le> 1 / (2 * 10 ^ 10)
         \<and> \<bar>jy' - 27015 / 100000\<bar> \<le> 1 / (2 * 10 ^ 10)
         \<and> loadFromUrl DEFAULT_STATE (encodeUrl (\<lambda>x. []) (DEFAULT_STATE\<lparr>isJulia := True\<rparr>)) =
             (if isJulia (DEFAULT_STATE\<lparr>isJulia := True\<rparr>) then
                DEFAULT_STATE\<lparr>center := (Num cx', Num cy'), zoom := Num z',
                     maxIterations := Num (real_of_int 150), colorPalette := Num (real_of_int 0),
                     isJulia := True, juliaC := (Num jx', Num jy')\<rparr>
              else
                DEFAULT_STATE\<lparr>center := (Num cx', Num cy'), zoom := Num z',
                     maxIterations := Num (real_of_int 150),
                     colorPalette := Num (real_of_int 0)\<rparr>)"
  by (rule url_round_trip) (simp_all add: DEFAULT_STATE_def)

text \<open>
  C8 as stated: numeric fields that arrive through the URL are sanitised, and no \<open>NaN\<close> or
  infinity reaches the state. The parameter \<open>z=abc\<close> puts \<open>NaN\<close> into \<open>zoom\<close>, \<open>cx=Infinity\<close>
  puts an infinity into \<open>center\<close>, and \<open>i=-5\<close> puts \<open>-5\<close> into \<open>maxIterations\<close>.
\<close>

theorem url_fields_unsanitized_counterexample:
  "zoom (loadFromUrl DEFAULT_STATE [(''z'', ''abc'')]) = NaN
   \<and> center (loadFromUrl DEFAULT_STATE [(''cx'', ''Infinity''), (''cy'', ''0'')])
       = (Infinity, Num 0)
   \<and> maxIterations (loadFromUrl DEFAULT_STATE [(''i'', ''-5'')]) = Num (- 5)"
proof -
  have a: "parseFloat ''abc'' = NaN"
    by (simp add: parseFloat_def Let_def is_space_def is_digit_def)
  have b: "parseFloat ''Infinity'' = Infinity"
    by (simp add: parseFloat_def Let_def is_space_def)
  have c: "parseFloat ''0'' = Num 0"
    by (simp add: parseFloat_def Let_def is_space_def is_digit_def digits_value_def
        digit_val_def exponent_def)
  have d: "parseInt ''-5'' = Num (- 5)"
    by (simp add: parseInt_def Let_def is_space_def is_digit_def digits_value_def digit_val_def)
  show ?thesis
    unfolding loadFromUrl_merge loadUpdates_def Let_def
    by (simp add: params_get_def merge_def a b c d)
qed

text \<open>
  C8, amended: every numeric field present in the key-value form is stored in the state
  as \<open>parseFloat\<close> (centre, zoom, Julia constant) or \<open>parseInt\<close> (iteration count, palette
  index) returns it for its string, whatever the result; an absent key leaves the value
  of the previous state.
\<close>

theorem url_fields_unsanitized:
  "center (loadFromUrl prev params) =
     (case (params_get params ''cx'', params_get params ''cy'') of
        (Some a, Some b) \<Rightarrow> (parseFloat a, parseFloat b)
      | _ \<Rightarrow> center prev)
   \<and> zoom (loadFromUrl prev params) =
     (case params_get params ''z'' of Some a \<Rightarrow> parseFloat a | None \<Rightarrow> zoom prev)
   \<and> maxIterations (loadFromUrl prev params) =
     (case params_get params ''i'' of Some a \<Rightarrow> parseInt a | None \<Rightarrow> maxIterations prev)
   \<and> colorPalette (loadFromUrl prev params) =
     (case params_get params ''p'' of Some a \<Rightarrow> parseInt a | None \<Rightarrow> colorPalette prev)
   \<and> juliaC (loadFromUrl prev params) =
     (case (params_get params ''jx'', params_get params ''jy'') of
        (Some a, Some b) \<Rightarrow> (parseFloat a, parseFloat b)
      | _ \<Rightarrow> juliaC prev)"
  unfolding loadFromUrl_merge loadUpdates_def Let_def merge_append
  by (simp add: merge_Nil merge_single split: option.splits)

theorem url_fields_unsanitized_witness:
  "zoom (loadFromUrl DEFAULT_STATE [(''z'', ''2.5''), (''i'', ''300'')]) = Num (5 / 2)
   \<and> maxIterations (loadFromUrl DEFAULT_STATE [(''z'', ''2.5''), (''i'', ''300'')]) = Num 300
   \<and> colorPalette (loadFromUrl DEFAULT_STATE [(''z'', ''2.5''), (''i'', ''300'')]) = Num 0"
proof -
  have a: "parseFloat ''2.5'' = Num (5 / 2)"
    by (simp add: parseFloat_def Let_def is_space_def is_digit_def digits_value_def
        digit_val_def exponent_def)
  have b: "parseInt ''300'' = Num 300"
    by (simp add: parseInt_def Let_def is_space_def is_digit_def digits_value_def digit_val_def)
  show ?thesis
    using url_fields_unsanitized [of DEFAULT_STATE "[(''z'', ''2.5''), (''i'', ''300'')]"]
    by (simp add: params_get_def a b DEFAULT_STATE_def)
qed

end
